theory Spec2Isabelle
  imports Main "HOL-Library.Word"
begin

section \<open>Cross-signing keys (CrossSigning.ts)\<close>

text \<open>
  Keys are kept in the format the server sends them.  A JavaScript object with string
  property names is the list of its own enumerable properties, in \<open>Object.keys\<close> order;
  a property read \<open>o[k]\<close> is \<open>map_of\<close>.  An optional property is an \<open>option\<close>.
\<close>

type_synonym bytes = "8 word list"

type_synonym 'a js_object = "(string \<times> 'a) list"

definition Object_keys :: "'a js_object \<Rightarrow> string list" where
  "Object_keys obj = map fst obj"

text \<open>\<open>String.prototype.startsWith\<close>.\<close>

definition startsWith :: "string \<Rightarrow> string \<Rightarrow> bool" where
  "startsWith s p = (take (length p) s = p)"

text \<open>\<open>String.prototype.substr(start)\<close> with a non-negative start.\<close>

definition substr :: "string \<Rightarrow> nat \<Rightarrow> string" where
  "substr s start = drop start s"

datatype KeyUsage = Master | SelfSigning | UserSigning

text \<open>The string value of each member of the \<open>KeyUsage\<close> string enum.\<close>

fun KeyUsage_value :: "KeyUsage \<Rightarrow> string" where
  "KeyUsage_value Master = ''master''"
| "KeyUsage_value SelfSigning = ''self_signing''"
| "KeyUsage_value UserSigning = ''user_signing''"

text \<open>
  The \<open>usage\<close> property is declared \<open>ReadonlyArray<string>\<close>; \<open>getKeyUsage\<close> still
  asks \<open>Array.isArray\<close>, so a value that is no array is kept as a case of its own.
\<close>

datatype usage_value = UsageArray "string list" | NotAnArray

type_synonym signature_map = "string js_object js_object"

record CrossSigningKey =
  user_id :: string
  usage :: usage_value
  keys :: "string js_object"
  signatures :: "signature_map option"

definition getKeyUsage :: "CrossSigningKey \<Rightarrow> KeyUsage option" where
  "getKeyUsage keyInfo =
     (case usage keyInfo of
        NotAnArray \<Rightarrow> None
      | UsageArray us \<Rightarrow>
          if length us \<noteq> 1 then None
          else let u = us ! 0 in
            if u \<noteq> KeyUsage_value Master \<and> u \<noteq> KeyUsage_value SelfSigning
               \<and> u \<noteq> KeyUsage_value UserSigning
            then None
            else if u = KeyUsage_value Master then Some Master
            else if u = KeyUsage_value SelfSigning then Some SelfSigning
            else Some UserSigning)"

definition algorithm :: string where
  "algorithm = ''ed25519''"

definition prefix :: string where
  "prefix = algorithm @ '':''"

definition getKeyEd25519Key :: "CrossSigningKey \<Rightarrow> string option" where
  "getKeyEd25519Key keyInfo =
     (let ed25519KeyIds = filter (\<lambda>keyId. startsWith keyId prefix) (Object_keys (keys keyInfo))
      in if length ed25519KeyIds \<noteq> 1 then None
         else let keyId = ed25519KeyIds ! 0 in map_of (keys keyInfo) keyId)"

definition getKeyUserId :: "CrossSigningKey \<Rightarrow> string option" where
  "getKeyUserId keyInfo = Some (user_id keyInfo)"

section \<open>Signed values and signature verification\<close>

text \<open>
  Modelled from the spec: \<open>DeviceKey\<close> is declared in e2ee/common, which is not among
  the sources.  It is the per-device identity bundle: owning user id, device id, the
  device's public keys and a signatures map of the same shape as a cross-signing key's.
\<close>

record DeviceKey =
  dk_user_id :: string
  device_id :: string
  dk_keys :: "string js_object"
  dk_signatures :: "signature_map option"

text \<open>The union type \<open>DeviceKey | CrossSigningKey\<close>.\<close>

datatype signed_value = KeyValue CrossSigningKey | DeviceValue DeviceKey

fun signatures_of :: "signed_value \<Rightarrow> signature_map option" where
  "signatures_of (KeyValue k) = signatures k"
| "signatures_of (DeviceValue d) = dk_signatures d"

text \<open>The object without its \<open>signatures\<close>: what a signature is computed over.\<close>

fun signable :: "signed_value \<Rightarrow> signed_value" where
  "signable (KeyValue k) = KeyValue (k\<lparr>signatures := None\<rparr>)"
| "signable (DeviceValue d) = DeviceValue (d\<lparr>dk_signatures := None\<rparr>)"

text \<open>
  Modelled from the spec: the enum \<open>SignatureVerification\<close> of e2ee/common, the tri-state
  \<open>Valid | NotSigned | Invalid\<close>.
\<close>

datatype SignatureVerification = Valid | NotSigned | Invalid

definition signature_entry :: "signed_value \<Rightarrow> string \<Rightarrow> string \<Rightarrow> string option" where
  "signature_entry val userId keyId =
     (case signatures_of val of
        None \<Rightarrow> None
      | Some sigs \<Rightarrow> (case map_of sigs userId of None \<Rightarrow> None | Some m \<Rightarrow> map_of m keyId))"

text \<open>
  Modelled from the spec: \<open>verifyEd25519Signature\<close> of e2ee/common is not among the
  sources.  No signature entry present for that signer and key id gives \<open>NotSigned\<close>;
  an entry that fails the cryptographic check gives \<open>Invalid\<close>; an entry that passes
  gives \<open>Valid\<close>.  The entry is looked up under the signer's user id and the key id
  \<open>"ed25519:" + deviceOrKeyId\<close>.  The first argument stands for \<open>olmUtil\<close>: its
  \<open>ed25519_verify\<close>, as a predicate on the public key, the signed object and the signature.
\<close>

definition verifyEd25519Signature ::
  "(string \<Rightarrow> signed_value \<Rightarrow> string \<Rightarrow> bool) \<Rightarrow> string \<Rightarrow> string \<Rightarrow> string
     \<Rightarrow> signed_value \<Rightarrow> SignatureVerification" where
  "verifyEd25519Signature olmUtil userId deviceOrKeyId ed25519Key val =
     (case signature_entry val userId (prefix @ deviceOrKeyId) of
        None \<Rightarrow> NotSigned
      | Some signature \<Rightarrow>
          if olmUtil ed25519Key (signable val) signature then Valid else Invalid)"

section \<open>The CrossSigning class\<close>

datatype UserTrust =
    Trusted
  | UserNotSigned
  | UserSignatureMismatch
  | UserDeviceNotSigned
  | UserDeviceSignatureMismatch
  | UserSetupError
  | OwnSetupError

text \<open>The member \<open>Valid\<close> of \<open>MSKVerification\<close> is written \<open>MSKValid\<close> here.\<close>

datatype MSKVerification = NoPrivKey | NoPubKey | DerivedPubKeyMismatch | MSKValid

text \<open>
  Modelled from the spec: the inbound protocol message
  \<open>{ type, sender, content: { transaction_id } }\<close>; \<open>VerificationEventType\<close> is declared in
  SAS/channel/types, which is not among the sources.  Every other message type is \<open>OtherType\<close>.
\<close>

datatype VerificationEventType = Request | Start | OtherType string

record unencryptedEvent =
  ev_type :: VerificationEventType
  sender :: string
  transaction_id :: string

text \<open>
  Modelled from the spec: \<open>SASVerification\<close> and \<open>ToDeviceChannel\<close> are not among the
  sources.  Of an interactive session the class reads \<open>finished\<close> and \<open>channel.id\<close>; the
  session is bound to the other user and to the starting message.
\<close>

record SASVerification =
  otherUserId :: string
  channel_id :: string
  startingMessage :: "unencryptedEvent option"
  finished :: bool

text \<open>
  The collaborators handed to the constructor, as functions.  \<open>getCrossSigningKeyForUser\<close>
  takes as its third argument whether \<open>hsApi\<close> was passed, that is whether the lookup may
  use the network.  \<open>pkSign\<close> (of ./common, not among the sources) adds a signature to the
  \<open>signatures\<close> of the object it is given, in place; here it returns the new \<open>signatures\<close>.
  \<open>newChannelId\<close> is the id of a \<open>ToDeviceChannel\<close> constructed from a starting message.
  A call to a collaborator is taken to return: the class catches nothing, and the
  \<open>finally\<close> around \<open>init_with_seed\<close> only frees the signing context.  The log items
  (\<open>ILogItem\<close>) only observe and are left out.
\<close>

record Collaborators =
  ownUserId :: string
  deviceId :: string
  readSecret :: "string \<Rightarrow> string option"
  base64_decode :: "string \<Rightarrow> bytes"
  init_with_seed :: "bytes \<Rightarrow> string"
  getCrossSigningKeyForUser :: "string \<Rightarrow> KeyUsage \<Rightarrow> bool \<Rightarrow> CrossSigningKey option"
  deviceForId :: "string \<Rightarrow> string \<Rightarrow> DeviceKey option"
  devicesForUsers :: "string list \<Rightarrow> DeviceKey list"
  getUnsignedDeviceKey :: DeviceKey
  pkSign :: "signed_value \<Rightarrow> bytes \<Rightarrow> string \<Rightarrow> string \<Rightarrow> signature_map"
  ed25519_verify :: "string \<Rightarrow> signed_value \<Rightarrow> string \<Rightarrow> bool"
  newChannelId :: "unencryptedEvent option \<Rightarrow> string"

text \<open>Every call made to a collaborator is recorded, in order.\<close>

datatype call =
    ReadSecret string
  | GetCrossSigningKeyForUser string KeyUsage bool
  | DeviceForId string string
  | DevicesForUsers "string list"
  | GetUnsignedDeviceKey
  | PkSign signed_value bytes
  | UploadSignatures "signed_value js_object js_object"

fun is_network_call :: "call \<Rightarrow> bool" where
  "is_network_call (GetCrossSigningKeyForUser _ _ useNetwork) = useNetwork"
| "is_network_call (DeviceForId _ _) = True"
| "is_network_call (DevicesForUsers _) = True"
| "is_network_call (UploadSignatures _) = True"
| "is_network_call _ = False"

fun is_signing_call :: "call \<Rightarrow> bool" where
  "is_signing_call (PkSign _ _) = True"
| "is_signing_call _ = False"

text \<open>
  The mutable fields of a \<open>CrossSigning\<close> instance.  \<open>isMasterKeyTrusted\<close> is the field
  \<open>_isMasterKeyTrusted\<close>.  \<open>SASVerification\<close> objects live in \<open>sas_objects\<close>, the list of
  all those constructed so far, and \<open>sasVerificationInProgress\<close> refers to one by its index.
\<close>

record CrossSigning =
  isMasterKeyTrusted :: bool
  sasVerificationInProgress :: "nat option"
  sas_objects :: "SASVerification list"
  calls :: "call list"

text \<open>The instance as the constructor leaves it.\<close>

definition new_CrossSigning :: CrossSigning where
  "new_CrossSigning =
     \<lparr>isMasterKeyTrusted = False, sasVerificationInProgress = None, sas_objects = [], calls = []\<rparr>"

definition record_call :: "call \<Rightarrow> CrossSigning \<Rightarrow> CrossSigning" where
  "record_call cl s = s\<lparr>calls := calls s @ [cl]\<rparr>"

text \<open>JavaScript truthiness of an optional string: defined and not empty.\<close>

fun truthy :: "string option \<Rightarrow> bool" where
  "truthy None = False"
| "truthy (Some str) = (str \<noteq> [])"

definition getSigningKey ::
  "Collaborators \<Rightarrow> KeyUsage \<Rightarrow> CrossSigning \<Rightarrow> bytes option \<times> CrossSigning" where
  "getSigningKey c usg s =
     (let name = ''m.cross_signing.'' @ KeyUsage_value usg;
          seedStr = readSecret c name;
          s' = record_call (ReadSecret name) s
      in if truthy seedStr then (Some (base64_decode c (the seedStr)), s') else (None, s'))"

definition fetchCrossSigningKey ::
  "Collaborators \<Rightarrow> string \<Rightarrow> KeyUsage \<Rightarrow> bool \<Rightarrow> CrossSigning
     \<Rightarrow> CrossSigningKey option \<times> CrossSigning" where
  "fetchCrossSigningKey c userId usg useNetwork s =
     (getCrossSigningKeyForUser c userId usg useNetwork,
      record_call (GetCrossSigningKeyForUser userId usg useNetwork) s)"

definition verifyMSKFrom4S ::
  "Collaborators \<Rightarrow> bool \<Rightarrow> CrossSigning \<Rightarrow> MSKVerification \<times> CrossSigning" where
  "verifyMSKFrom4S c allowNetwork s0 =
     (let (privateMasterKey, s1) = getSigningKey c Master s0 in
      case privateMasterKey of
        None \<Rightarrow> (NoPrivKey, s1)
      | Some privateMasterKey \<Rightarrow>
          let derivedPublicKey = init_with_seed c privateMasterKey;
              (publishedMasterKey, s2) =
                 fetchCrossSigningKey c (ownUserId c) Master allowNetwork s1
          in (case publishedMasterKey of
                None \<Rightarrow> (NoPubKey, s2)
              | Some publishedMasterKey \<Rightarrow>
                  let publisedEd25519Key = getKeyEd25519Key publishedMasterKey;
                      s3 = s2\<lparr>isMasterKeyTrusted :=
                                 truthy publisedEd25519Key
                                 \<and> publisedEd25519Key = Some derivedPublicKey\<rparr>
                  in if \<not> isMasterKeyTrusted s3 then (DerivedPubKeyMismatch, s3)
                     else (MSKValid, s3)))"

definition load :: "Collaborators \<Rightarrow> CrossSigning \<Rightarrow> bool \<times> CrossSigning" where
  "load c s = (let (verification, s') = verifyMSKFrom4S c False s
               in (verification \<noteq> NoPrivKey, s'))"

definition start :: "Collaborators \<Rightarrow> CrossSigning \<Rightarrow> CrossSigning" where
  "start c s = (if \<not> isMasterKeyTrusted s then snd (verifyMSKFrom4S c True s) else s)"

definition session_in_progress :: "CrossSigning \<Rightarrow> SASVerification option" where
  "session_in_progress s =
     (case sasVerificationInProgress s of None \<Rightarrow> None | Some i \<Rightarrow> Some (sas_objects s ! i))"

definition startVerification ::
  "Collaborators \<Rightarrow> string \<Rightarrow> unencryptedEvent option \<Rightarrow> CrossSigning
     \<Rightarrow> nat option \<times> CrossSigning" where
  "startVerification c userId startingMsg s =
     (if (case session_in_progress s of None \<Rightarrow> False | Some sas \<Rightarrow> \<not> finished sas)
      then (None, s)
      else let sas = \<lparr>otherUserId = userId, channel_id = newChannelId c startingMsg,
                       startingMessage = startingMsg, finished = False\<rparr>;
               ref = length (sas_objects s)
           in (Some ref,
               s\<lparr>sas_objects := sas_objects s @ [sas], sasVerificationInProgress := Some ref\<rparr>))"

text \<open>
  The listener the constructor registers for \<open>"message"\<close>.  Starting the session returned by
  \<open>startVerification\<close> (\<open>sas?.start()\<close>) belongs to the session's own protocol and is left out.
\<close>

definition on_message :: "Collaborators \<Rightarrow> unencryptedEvent \<Rightarrow> CrossSigning \<Rightarrow> CrossSigning" where
  "on_message c ev s =
     (if (case session_in_progress s of
            None \<Rightarrow> False
          | Some sas \<Rightarrow> \<not> finished sas \<or> channel_id sas = transaction_id ev)
      then s
      else if ev_type ev = Request \<or> ev_type ev = Start
           then snd (startVerification c (sender ev) (Some ev) s)
           else s)"

definition signKey ::
  "Collaborators \<Rightarrow> signed_value \<Rightarrow> bytes \<Rightarrow> CrossSigning \<Rightarrow> signature_map \<times> CrossSigning" where
  "signKey c keyToSign signingKey s =
     (pkSign c keyToSign signingKey (ownUserId c) [],
      record_call (PkSign keyToSign signingKey) s)"

definition signDeviceKey ::
  "Collaborators \<Rightarrow> DeviceKey \<Rightarrow> CrossSigning \<Rightarrow> DeviceKey option \<times> CrossSigning" where
  "signDeviceKey c keyToSign s0 =
     (let (signingKey, s1) = getSigningKey c SelfSigning s0 in
      case signingKey of
        None \<Rightarrow> (None, s1)
      | Some signingKey \<Rightarrow>
          let (sigs, s2) = signKey c (DeviceValue keyToSign) signingKey s1;
              keyToSign = keyToSign\<lparr>dk_signatures := Some sigs\<rparr>;
              payload = [(dk_user_id keyToSign, [(device_id keyToSign, DeviceValue keyToSign)])];
              s3 = record_call (UploadSignatures payload) s2
          in (Some keyToSign, s3))"

definition signOwnDevice :: "Collaborators \<Rightarrow> CrossSigning \<Rightarrow> DeviceKey option \<times> CrossSigning" where
  "signOwnDevice c s =
     (if \<not> isMasterKeyTrusted s then (None, s)
      else let ownDeviceKey = getUnsignedDeviceKey c
           in signDeviceKey c ownDeviceKey (record_call GetUnsignedDeviceKey s))"

definition signDevice ::
  "Collaborators \<Rightarrow> string \<Rightarrow> CrossSigning \<Rightarrow> DeviceKey option \<times> CrossSigning" where
  "signDevice c devId s =
     (if \<not> isMasterKeyTrusted s then (None, s)
      else let keyToSign = deviceForId c (ownUserId c) devId;
               s1 = record_call (DeviceForId (ownUserId c) devId) s
           in case keyToSign of
                None \<Rightarrow> (None, s1)
              | Some keyToSign \<Rightarrow> signDeviceKey c (keyToSign\<lparr>dk_signatures := None\<rparr>) s1)"

definition signUser ::
  "Collaborators \<Rightarrow> string \<Rightarrow> CrossSigning \<Rightarrow> CrossSigningKey option \<times> CrossSigning" where
  "signUser c userId s =
     (if \<not> isMasterKeyTrusted s then (None, s)
      else if userId = ownUserId c then (None, s)
      else let (keyToSign, s1) = fetchCrossSigningKey c userId Master True s in
        case keyToSign of
          None \<Rightarrow> (None, s1)
        | Some keyToSign \<Rightarrow>
            let (signingKey, s2) = getSigningKey c UserSigning s1 in
            (case signingKey of
               None \<Rightarrow> (None, s2)
             | Some signingKey \<Rightarrow>
                 let keyToSign = keyToSign\<lparr>signatures := None\<rparr>;
                     (sigs, s3) = signKey c (KeyValue keyToSign) signingKey s2;
                     keyToSign = keyToSign\<lparr>signatures := Some sigs\<rparr>;
                     keyId = (case getKeyEd25519Key keyToSign of
                                None \<Rightarrow> ''undefined'' | Some k \<Rightarrow> k);
                     payload = [(user_id keyToSign, [(keyId, KeyValue keyToSign)])];
                     s4 = record_call (UploadSignatures payload) s3
                 in (Some keyToSign, s4)))"

definition hasValidSignatureFrom ::
  "Collaborators \<Rightarrow> signed_value \<Rightarrow> CrossSigningKey \<Rightarrow> SignatureVerification" where
  "hasValidSignatureFrom c key signingKey =
     (let pubKey = getKeyEd25519Key signingKey in
      if \<not> truthy pubKey then NotSigned
      else verifyEd25519Signature (ed25519_verify c) (user_id signingKey)
             (the pubKey) (the pubKey) key)"

text \<open>The callback of the \<open>reduce\<close> over the subject's device keys.\<close>

definition verify_device ::
  "Collaborators \<Rightarrow> CrossSigningKey \<Rightarrow> SignatureVerification \<Rightarrow> DeviceKey
     \<Rightarrow> SignatureVerification" where
  "verify_device c theirSSK lowest dk =
     (let verification = hasValidSignatureFrom c (DeviceValue dk) theirSSK in
      if lowest = Invalid \<or> verification = Invalid then Invalid
      else if lowest = NotSigned \<or> verification = NotSigned then NotSigned
      else if lowest = Valid \<or> verification = Valid then Valid
      else Invalid)"

definition getUserTrust ::
  "Collaborators \<Rightarrow> string \<Rightarrow> CrossSigning \<Rightarrow> UserTrust \<times> CrossSigning" where
  "getUserTrust c userId s0 =
     (if \<not> isMasterKeyTrusted s0 then (OwnSetupError, s0) else
      let (ourMSK, s1) = fetchCrossSigningKey c (ownUserId c) Master True s0 in
      (case ourMSK of None \<Rightarrow> (OwnSetupError, s1) | Some ourMSK \<Rightarrow>
      let (ourUSK, s2) = fetchCrossSigningKey c (ownUserId c) UserSigning True s1 in
      (case ourUSK of None \<Rightarrow> (OwnSetupError, s2) | Some ourUSK \<Rightarrow>
      let ourUSKVerification = hasValidSignatureFrom c (KeyValue ourUSK) ourMSK in
      if ourUSKVerification \<noteq> Valid then (OwnSetupError, s2) else
      let (theirMSK, s3) = fetchCrossSigningKey c userId Master True s2 in
      (case theirMSK of None \<Rightarrow> (UserNotSigned, s3) | Some theirMSK \<Rightarrow>
      let theirMSKVerification = hasValidSignatureFrom c (KeyValue theirMSK) ourUSK in
      if theirMSKVerification \<noteq> Valid then
        (if theirMSKVerification = NotSigned then (UserNotSigned, s3)
         else (UserSignatureMismatch, s3))
      else
      let (theirSSK, s4) = fetchCrossSigningKey c userId SelfSigning True s3 in
      (case theirSSK of None \<Rightarrow> (UserSetupError, s4) | Some theirSSK \<Rightarrow>
      let theirSSKVerification = hasValidSignatureFrom c (KeyValue theirSSK) theirMSK in
      if theirSSKVerification \<noteq> Valid then (UserSetupError, s4) else
      let theirDeviceKeys = devicesForUsers c [userId];
          s5 = record_call (DevicesForUsers [userId]) s4;
          lowestDeviceVerification = foldl (verify_device c theirSSK) Valid theirDeviceKeys
      in if lowestDeviceVerification \<noteq> Valid then
           (if lowestDeviceVerification = NotSigned then (UserDeviceNotSigned, s5)
            else (UserDeviceSignatureMismatch, s5))
         else (Trusted, s5))))))"

section \<open>The verification session trigger as a transition system\<close>

text \<open>
  What can happen to an instance: a device message arrives, a method is called, or a
  session that was constructed finishes.  Modelled from the spec: the session's own
  protocol is out of scope; all that is used of it is that a session which has finished
  stays finished, so that the only change to a \<open>SASVerification\<close> from outside this class is
  \<open>finished\<close> becoming true.
\<close>

datatype action =
    Message unencryptedEvent
  | CallStartVerification string "unencryptedEvent option"
  | SessionFinishes nat
  | CallLoad
  | CallStart
  | CallSignOwnDevice
  | CallSignDevice string
  | CallSignUser string
  | CallGetUserTrust string

fun step :: "Collaborators \<Rightarrow> CrossSigning \<Rightarrow> action \<Rightarrow> CrossSigning" where
  "step c s (Message ev) = on_message c ev s"
| "step c s (CallStartVerification userId msg) = snd (startVerification c userId msg s)"
| "step c s (SessionFinishes i) =
     (if i < length (sas_objects s)
      then s\<lparr>sas_objects := (sas_objects s)[i := (sas_objects s ! i)\<lparr>finished := True\<rparr>]\<rparr>
      else s)"
| "step c s CallLoad = snd (load c s)"
| "step c s CallStart = start c s"
| "step c s CallSignOwnDevice = snd (signOwnDevice c s)"
| "step c s (CallSignDevice devId) = snd (signDevice c devId s)"
| "step c s (CallSignUser userId) = snd (signUser c userId s)"
| "step c s (CallGetUserTrust userId) = snd (getUserTrust c userId s)"

text \<open>The state reached from a fresh instance by a sequence of actions.\<close>

definition run :: "Collaborators \<Rightarrow> action list \<Rightarrow> CrossSigning" where
  "run c acts = foldl (step c) new_CrossSigning acts"

definition unfinished_sessions :: "CrossSigning \<Rightarrow> SASVerification list" where
  "unfinished_sessions s = filter (\<lambda>sas. \<not> finished sas) (sas_objects s)"

text \<open>
  The invariant of the trigger: every session that has not finished is the one in progress,
  and the reference to the session in progress is valid.
\<close>

definition trigger_inv :: "CrossSigning \<Rightarrow> bool" where
  "trigger_inv s \<longleftrightarrow>
     (\<forall>j < length (sas_objects s).
         \<not> finished (sas_objects s ! j) \<longrightarrow> sasVerificationInProgress s = Some j)
     \<and> (\<forall>i. sasVerificationInProgress s = Some i \<longrightarrow> i < length (sas_objects s))"

section \<open>The worst verdict, in the words of the specification\<close>

text \<open>
  Precedence \<open>Invalid > NotSigned > Valid\<close>: any invalid signature anywhere dominates;
  otherwise any not-signed dominates; otherwise all are valid.
\<close>

definition worst_verdict :: "SignatureVerification list \<Rightarrow> SignatureVerification" where
  "worst_verdict vs =
     (if Invalid \<in> set vs then Invalid else if NotSigned \<in> set vs then NotSigned else Valid)"

fun trust_of_worst :: "SignatureVerification \<Rightarrow> UserTrust" where
  "trust_of_worst Invalid = UserDeviceSignatureMismatch"
| "trust_of_worst NotSigned = UserDeviceNotSigned"
| "trust_of_worst Valid = Trusted"

section \<open>The session store with its localStorage mirror (SessionStore.ts)\<close>

text \<open>
  Modelled from the spec: \<open>IDOMStorage\<close> (of ../types) is not among the sources.  The
  secondary medium exposes an indexable, iterable key space (\<open>length\<close>, \<open>key(i)\<close>,
  \<open>getItem\<close>, \<open>setItem\<close>, \<open>removeItem\<close>): an ordered list of string entries.  \<open>setItem\<close>
  replaces the value of a key that is present and appends a new key; it throws when the
  contents would grow beyond the medium's quota, counted in characters.
\<close>

record DOMStorage =
  items :: "(string \<times> string) list"
  quota :: nat

definition ls_length :: "DOMStorage \<Rightarrow> nat" where
  "ls_length ls = length (items ls)"

definition ls_key :: "DOMStorage \<Rightarrow> nat \<Rightarrow> string option" where
  "ls_key ls i = (if i < length (items ls) then Some (fst (items ls ! i)) else None)"

definition getItem :: "DOMStorage \<Rightarrow> string \<Rightarrow> string option" where
  "getItem ls k = map_of (items ls) k"

fun update_item :: "string \<Rightarrow> string \<Rightarrow> (string \<times> string) list \<Rightarrow> (string \<times> string) list" where
  "update_item k v [] = [(k, v)]"
| "update_item k v ((k', v') # rest) =
     (if k' = k then (k, v) # rest else (k', v') # update_item k v rest)"

definition storage_size :: "(string \<times> string) list \<Rightarrow> nat" where
  "storage_size its = sum_list (map (\<lambda>(k, v). length k + length v) its)"

text \<open>\<open>None\<close> is the exception thrown when the quota is exceeded.\<close>

definition setItem :: "DOMStorage \<Rightarrow> string \<Rightarrow> string \<Rightarrow> DOMStorage option" where
  "setItem ls k v =
     (let its = update_item k v (items ls)
      in if quota ls < storage_size its then None else Some (ls\<lparr>items := its\<rparr>))"

definition removeItem :: "DOMStorage \<Rightarrow> string \<Rightarrow> DOMStorage" where
  "removeItem ls k = ls\<lparr>items := filter (\<lambda>(k', v). k' \<noteq> k) (items ls)\<rparr>"

text \<open>
  What the file imports and does not define: the constant \<open>SESSION_E2EE_KEY_PREFIX\<close> of
  e2ee/common.js, and \<open>stringify\<close> and \<open>parse\<close> of utils/typedJSON.  \<open>stringify\<close> may
  throw (\<open>None\<close>); the caller catches it.  \<open>parse\<close> is taken to return.
\<close>

record 'v imported =
  SESSION_E2EE_KEY_PREFIX :: string
  stringify :: "'v \<Rightarrow> string option"
  parse :: "string \<Rightarrow> 'v"

text \<open>
  Modelled from the spec: \<open>Store\<close> (of ../Store) is not among the sources.  It is the
  primary key-value store: its contents are a map from \<open>key\<close> to \<open>value\<close>; \<open>put\<close> is an
  upsert, \<open>add\<close> is insert-only, \<open>delete\<close> removes, \<open>getKey\<close> gives back the key when an
  entry is stored under it.
\<close>

record 'v SessionStore =
  databaseName :: string
  sessionStore :: "string \<rightharpoonup> 'v"
  localStorage :: DOMStorage

definition store_get :: "'v SessionStore \<Rightarrow> string \<Rightarrow> 'v option" where
  "store_get st key = sessionStore st key"

definition store_getKey :: "'v SessionStore \<Rightarrow> string \<Rightarrow> string option" where
  "store_getKey st key = (if sessionStore st key = None then None else Some key)"

definition store_put :: "string \<Rightarrow> 'v \<Rightarrow> 'v SessionStore \<Rightarrow> 'v SessionStore" where
  "store_put key val st = st\<lparr>sessionStore := (sessionStore st)(key \<mapsto> val)\<rparr>"

text \<open>Insert-only: on a key that is present the store is left as it is and the request fails.\<close>

definition store_add :: "string \<Rightarrow> 'v \<Rightarrow> 'v SessionStore \<Rightarrow> bool \<times> 'v SessionStore" where
  "store_add key val st =
     (if sessionStore st key = None then (True, store_put key val st) else (False, st))"

definition store_delete :: "string \<Rightarrow> 'v SessionStore \<Rightarrow> 'v SessionStore" where
  "store_delete key st = st\<lparr>sessionStore := (sessionStore st)(key := None)\<rparr>"

definition get :: "'v SessionStore \<Rightarrow> string \<Rightarrow> 'v option" where
  "get st key = (case store_get st key of None \<Rightarrow> None | Some val \<Rightarrow> Some val)"

definition writeKeyToLocalStorage ::
  "'v imported \<Rightarrow> string \<Rightarrow> 'v \<Rightarrow> 'v SessionStore \<Rightarrow> 'v SessionStore" where
  "writeKeyToLocalStorage imp key val st =
     (let lsKey = databaseName st @ ''.session.'' @ key in
      case stringify imp val of
        None \<Rightarrow> st
      | Some lsValue \<Rightarrow>
          (case setItem (localStorage st) lsKey lsValue of
             None \<Rightarrow> st
           | Some ls \<Rightarrow> st\<lparr>localStorage := ls\<rparr>))"

text \<open>
  The loop of \<open>tryRestoreE2EEIdentityFromLocalStorage\<close>, from index \<open>i\<close> on.  The source's
  local \<open>prefix\<close> is \<open>e2eePrefix\<close> here.  \<open>key(i)!\<close> and \<open>getItem(lsKey)!\<close> are read under
  the loop condition, where both are defined.
\<close>

function restore_loop ::
  "'v imported \<Rightarrow> string \<Rightarrow> string \<Rightarrow> nat \<Rightarrow> bool \<Rightarrow> 'v SessionStore \<Rightarrow> bool \<times> 'v SessionStore" where
  "restore_loop imp lsPrefix e2eePrefix i success st =
     (if i < ls_length (localStorage st) then
        let lsKey = the (ls_key (localStorage st) i) in
        if startsWith lsKey e2eePrefix then
          let val = parse imp (the (getItem (localStorage st) lsKey));
              key = substr lsKey (length lsPrefix);
              hasKey = (store_getKey st key = Some key)
          in if \<not> hasKey
             then restore_loop imp lsPrefix e2eePrefix (i + 1) True (store_put key val st)
             else restore_loop imp lsPrefix e2eePrefix (i + 1) success st
        else restore_loop imp lsPrefix e2eePrefix (i + 1) success st
      else (success, st))"
  by pat_completeness auto
termination
  by (relation "measure (\<lambda>(imp, lsPrefix, e2eePrefix, i, success, st).
                   ls_length (localStorage st) - i)")
     (auto simp: store_put_def)

declare restore_loop.simps [simp del]

definition tryRestoreE2EEIdentityFromLocalStorage ::
  "'v imported \<Rightarrow> 'v SessionStore \<Rightarrow> bool \<times> 'v SessionStore" where
  "tryRestoreE2EEIdentityFromLocalStorage imp st =
     (let success = False;
          lsPrefix = databaseName st @ ''.session.'';
          e2eePrefix = lsPrefix @ SESSION_E2EE_KEY_PREFIX imp
      in restore_loop imp lsPrefix e2eePrefix 0 success st)"

definition set_entry :: "'v imported \<Rightarrow> string \<Rightarrow> 'v \<Rightarrow> 'v SessionStore \<Rightarrow> 'v SessionStore" where
  "set_entry imp key val st =
     (let st1 = (if startsWith key (SESSION_E2EE_KEY_PREFIX imp)
                 then writeKeyToLocalStorage imp key val st else st)
      in store_put key val st1)"

definition add_entry ::
  "'v imported \<Rightarrow> string \<Rightarrow> 'v \<Rightarrow> 'v SessionStore \<Rightarrow> bool \<times> 'v SessionStore" where
  "add_entry imp key val st =
     (let st1 = (if startsWith key (SESSION_E2EE_KEY_PREFIX imp)
                 then writeKeyToLocalStorage imp key val st else st)
      in store_add key val st1)"

definition remove :: "'v imported \<Rightarrow> string \<Rightarrow> 'v SessionStore \<Rightarrow> 'v SessionStore" where
  "remove imp key st =
     (let st1 = (if startsWith key (SESSION_E2EE_KEY_PREFIX imp)
                 then st\<lparr>localStorage := removeItem (localStorage st) (databaseName st @ key)\<rparr>
                 else st)
      in store_delete key st1)"

section \<open>A concrete directory of users, keys and devices\<close>

text \<open>
  A small world to evaluate the definitions on: \<open>@alice:hs\<close> is the own user; the
  cryptographic check accepts every signature except the string \<open>bad\<close>.
\<close>

definition example_key ::
  "string \<Rightarrow> KeyUsage \<Rightarrow> string \<Rightarrow> signature_map option \<Rightarrow> CrossSigningKey" where
  "example_key userId usg publicKey sigs =
     \<lparr>user_id = userId, usage = UsageArray [KeyUsage_value usg],
      keys = [(prefix @ publicKey, publicKey)], signatures = sigs\<rparr>"

definition signed_by :: "string \<Rightarrow> string \<Rightarrow> string \<Rightarrow> signature_map option" where
  "signed_by userId publicKey signature = Some [(userId, [(prefix @ publicKey, signature)])]"

definition alice_msk :: CrossSigningKey where
  "alice_msk = example_key ''@alice:hs'' Master ''AMSK'' None"

definition alice_usk :: CrossSigningKey where
  "alice_usk = example_key ''@alice:hs'' UserSigning ''AUSK'' (signed_by ''@alice:hs'' ''AMSK'' ''ok'')"

definition alice_ssk :: CrossSigningKey where
  "alice_ssk = example_key ''@alice:hs'' SelfSigning ''ASSK'' (signed_by ''@alice:hs'' ''AMSK'' ''ok'')"

definition bob_msk :: CrossSigningKey where
  "bob_msk = example_key ''@bob:hs'' Master ''BMSK'' (signed_by ''@alice:hs'' ''AUSK'' ''ok'')"

definition bob_ssk :: CrossSigningKey where
  "bob_ssk = example_key ''@bob:hs'' SelfSigning ''BSSK'' (signed_by ''@bob:hs'' ''BMSK'' ''ok'')"

definition dave_msk :: CrossSigningKey where
  "dave_msk = example_key ''@dave:hs'' Master ''DMSK'' None"

definition erin_msk :: CrossSigningKey where
  "erin_msk = example_key ''@erin:hs'' Master ''EMSK'' (signed_by ''@alice:hs'' ''AUSK'' ''bad'')"

definition frank_msk :: CrossSigningKey where
  "frank_msk = example_key ''@frank:hs'' Master ''FMSK'' (signed_by ''@alice:hs'' ''AUSK'' ''ok'')"

definition gina_msk :: CrossSigningKey where
  "gina_msk = example_key ''@gina:hs'' Master ''GMSK'' (signed_by ''@alice:hs'' ''AUSK'' ''ok'')"

definition gina_ssk :: CrossSigningKey where
  "gina_ssk = example_key ''@gina:hs'' SelfSigning ''GSSK'' (signed_by ''@gina:hs'' ''GMSK'' ''bad'')"

definition example_directory :: "string \<Rightarrow> KeyUsage \<Rightarrow> bool \<Rightarrow> CrossSigningKey option" where
  "example_directory userId usg useNetwork =
     (if userId = ''@alice:hs'' then
        (case usg of Master \<Rightarrow> Some alice_msk | UserSigning \<Rightarrow> Some alice_usk
                   | SelfSigning \<Rightarrow> Some alice_ssk)
      else if userId = ''@bob:hs'' then
        (case usg of Master \<Rightarrow> Some bob_msk | SelfSigning \<Rightarrow> Some bob_ssk
                   | UserSigning \<Rightarrow> None)
      else if userId = ''@dave:hs'' then
        (case usg of Master \<Rightarrow> Some dave_msk | _ \<Rightarrow> None)
      else if userId = ''@erin:hs'' then
        (case usg of Master \<Rightarrow> Some erin_msk | _ \<Rightarrow> None)
      else if userId = ''@frank:hs'' then
        (case usg of Master \<Rightarrow> Some frank_msk | _ \<Rightarrow> None)
      else if userId = ''@gina:hs'' then
        (case usg of Master \<Rightarrow> Some gina_msk | SelfSigning \<Rightarrow> Some gina_ssk
                   | UserSigning \<Rightarrow> None)
      else None)"

definition example_device :: "string \<Rightarrow> string \<Rightarrow> signature_map option \<Rightarrow> DeviceKey" where
  "example_device userId devId sigs =
     \<lparr>dk_user_id = userId, device_id = devId, dk_keys = [(prefix @ devId, devId)],
      dk_signatures = sigs\<rparr>"

definition bob_devices :: "DeviceKey list" where
  "bob_devices =
     [example_device ''@bob:hs'' ''B1'' (signed_by ''@bob:hs'' ''BSSK'' ''ok''),
      example_device ''@bob:hs'' ''B2'' None,
      example_device ''@bob:hs'' ''B3'' (signed_by ''@bob:hs'' ''BSSK'' ''bad'')]"

definition example_collaborators :: Collaborators where
  "example_collaborators =
     \<lparr>ownUserId = ''@alice:hs'',
      deviceId = ''A1'',
      readSecret = (\<lambda>name. Some ''c2VlZA''),
      base64_decode = (\<lambda>str. [115, 101, 101, 100]),
      init_with_seed = (\<lambda>seed. ''AMSK''),
      getCrossSigningKeyForUser = example_directory,
      deviceForId = (\<lambda>userId devId. None),
      devicesForUsers = (\<lambda>userIds. if userIds = [''@bob:hs''] then bob_devices else []),
      getUnsignedDeviceKey = example_device ''@alice:hs'' ''A1'' None,
      pkSign = (\<lambda>val seed userId keyId. []),
      ed25519_verify = (\<lambda>publicKey val signature. signature \<noteq> ''bad''),
      newChannelId = (\<lambda>msg. case msg of None \<Rightarrow> ''fresh'' | Some ev \<Rightarrow> transaction_id ev)\<rparr>"

definition trusted_instance :: CrossSigning where
  "trusted_instance = new_CrossSigning\<lparr>isMasterKeyTrusted := True\<rparr>"

text \<open>The same world, where the own published master key has no ed25519 entry.\<close>

definition malformed_msk :: CrossSigningKey where
  "malformed_msk =
     \<lparr>user_id = ''@alice:hs'', usage = UsageArray [''master''], keys = [], signatures = None\<rparr>"

definition malformed_collaborators :: Collaborators where
  "malformed_collaborators =
     example_collaborators\<lparr>getCrossSigningKeyForUser := (\<lambda>userId usg useNetwork. Some malformed_msk)\<rparr>"

text \<open>The example world before any key is cached: only a lookup over the network finds keys.\<close>

definition uncached_collaborators :: Collaborators where
  "uncached_collaborators =
     example_collaborators\<lparr>getCrossSigningKeyForUser :=
        (\<lambda>userId usg useNetwork. if useNetwork then example_directory userId usg True else None)\<rparr>"

text \<open>Two requests and a start message, and the instance after a first session has finished.\<close>

definition request_t1 :: unencryptedEvent where
  "request_t1 = \<lparr>ev_type = Request, sender = ''@bob:hs'', transaction_id = ''t1''\<rparr>"

definition start_t1 :: unencryptedEvent where
  "start_t1 = \<lparr>ev_type = Start, sender = ''@bob:hs'', transaction_id = ''t1''\<rparr>"

definition request_t2 :: unencryptedEvent where
  "request_t2 = \<lparr>ev_type = Request, sender = ''@erin:hs'', transaction_id = ''t2''\<rparr>"

definition session_t1 :: SASVerification where
  "session_t1 = \<lparr>otherUserId = ''@bob:hs'', channel_id = ''t1'',
                  startingMessage = Some request_t1, finished = True\<rparr>"

definition session_t2 :: SASVerification where
  "session_t2 = \<lparr>otherUserId = ''@erin:hs'', channel_id = ''t2'',
                  startingMessage = Some request_t2, finished = False\<rparr>"

definition finished_t1 :: CrossSigning where
  "finished_t1 = run example_collaborators [Message request_t1, SessionFinishes 0]"

text \<open>A session store whose values are strings, stored as they are.\<close>

definition example_imported :: "string imported" where
  "example_imported =
     \<lparr>SESSION_E2EE_KEY_PREFIX = ''e2ee:'', stringify = (\<lambda>val. Some val), parse = (\<lambda>str. str)\<rparr>"

definition empty_store :: "string SessionStore" where
  "empty_store =
     \<lparr>databaseName = ''db'', sessionStore = Map.empty,
      localStorage = \<lparr>items = [], quota = 1000\<rparr>\<rparr>"

text \<open>
  A primary store that holds \<open>e2ee:K\<close> and has lost \<open>e2ee:L\<close>, with a backup of both and
  two entries that are not part of the backup.
\<close>

definition backup_store :: "string SessionStore" where
  "backup_store =
     \<lparr>databaseName = ''db'', sessionStore = [''e2ee:K'' \<mapsto> ''old''],
      localStorage = \<lparr>items = [(''db.session.e2ee:K'', ''new''), (''other'', ''x''),
                                 (''db.session.e2ee:L'', ''lost''), (''db.session.sync'', ''t'')],
                       quota = 1000\<rparr>\<rparr>"

section \<open>Evaluating the example world\<close>

lemmas example_defs =
  example_collaborators_def example_directory_def example_key_def signed_by_def
  alice_msk_def alice_usk_def alice_ssk_def bob_msk_def bob_ssk_def dave_msk_def erin_msk_def
  frank_msk_def gina_msk_def gina_ssk_def example_device_def bob_devices_def
  trusted_instance_def new_CrossSigning_def

lemmas verify_defs =
  hasValidSignatureFrom_def verifyEd25519Signature_def signature_entry_def getKeyEd25519Key_def
  Object_keys_def startsWith_def prefix_def algorithm_def Let_def

lemma example_own_chain:
  "isMasterKeyTrusted trusted_instance"
  "getCrossSigningKeyForUser example_collaborators (ownUserId example_collaborators)
     Master True = Some alice_msk"
  "getCrossSigningKeyForUser example_collaborators (ownUserId example_collaborators)
     UserSigning True = Some alice_usk"
  "hasValidSignatureFrom example_collaborators (KeyValue alice_usk) alice_msk = Valid"
  by (simp_all add: example_defs verify_defs)

section \<open>Malformed keys are normalised to absence\<close>

lemma getKeyEd25519Key_malformed:
  "length (filter (\<lambda>keyId. startsWith keyId prefix) (Object_keys (keys keyInfo))) \<noteq> 1
   \<Longrightarrow> getKeyEd25519Key keyInfo = None"
  by (simp add: getKeyEd25519Key_def)

lemma getKeyEd25519Key_single:
  assumes "filter (\<lambda>keyId. startsWith keyId prefix) (Object_keys (keys keyInfo)) = [keyId]"
  shows "\<exists>publicKey. getKeyEd25519Key keyInfo = Some publicKey
           \<and> (keyId, publicKey) \<in> set (keys keyInfo)"
proof -
  have "keyId \<in> set (filter (\<lambda>keyId. startsWith keyId prefix) (Object_keys (keys keyInfo)))"
    using assms by simp
  then have "keyId \<in> fst ` set (keys keyInfo)"
    by (simp add: Object_keys_def)
  then obtain publicKey where pk: "map_of (keys keyInfo) keyId = Some publicKey"
    by (metis domD dom_map_of_conv_image_fst)
  then have "(keyId, publicKey) \<in> set (keys keyInfo)"
    by (rule map_of_SomeD)
  with pk assms show ?thesis
    by (simp add: getKeyEd25519Key_def)
qed

text \<open>
  Claim C8.  For a key whose \<open>usage\<close> array has length 0 or at least 2 (or whose \<open>usage\<close> is
  no array at all), \<open>getKeyUsage\<close> returns absent; for a key whose \<open>keys\<close> has no or at
  least two key ids starting with \<open>ed25519:\<close>, \<open>getKeyEd25519Key\<close> returns absent.  Both
  functions are total on every value of the declared type: there is no exception to raise.
\<close>

theorem malformed_key_is_absent:
  "(usage keyInfo = NotAnArray \<longrightarrow> getKeyUsage keyInfo = None)
   \<and> (usage keyInfo = UsageArray us \<and> (length us = 0 \<or> 2 \<le> length us)
        \<longrightarrow> getKeyUsage keyInfo = None)
   \<and> (length (filter (\<lambda>keyId. startsWith keyId prefix) (Object_keys (keys keyInfo))) = 0
        \<or> 2 \<le> length (filter (\<lambda>keyId. startsWith keyId prefix) (Object_keys (keys keyInfo)))
        \<longrightarrow> getKeyEd25519Key keyInfo = None)"
  by (auto simp: getKeyUsage_def getKeyEd25519Key_def)

theorem malformed_key_is_absent_witness:
  "getKeyUsage \<lparr>user_id = ''@alice:hs'', usage = UsageArray [''master'', ''self_signing''],
                keys = [(''ed25519:A'', ''keyA''), (''curve25519:C'', ''keyC''),
                        (''ed25519:B'', ''keyB'')],
                signatures = None\<rparr> = None
   \<and> getKeyEd25519Key \<lparr>user_id = ''@alice:hs'', usage = UsageArray [''master'', ''self_signing''],
                keys = [(''ed25519:A'', ''keyA''), (''curve25519:C'', ''keyC''),
                        (''ed25519:B'', ''keyB'')],
                signatures = None\<rparr> = None
   \<and> getKeyUsage malformed_msk = Some Master
   \<and> getKeyEd25519Key malformed_msk = None"
proof -
  let ?k = "\<lparr>user_id = ''@alice:hs'', usage = UsageArray [''master'', ''self_signing''],
             keys = [(''ed25519:A'', ''keyA''), (''curve25519:C'', ''keyC''),
                     (''ed25519:B'', ''keyB'')],
             signatures = None\<rparr>"
  have u: "usage ?k = UsageArray [''master'', ''self_signing'']
           \<and> (length [''master'', ''self_signing''] = 0 \<or> 2 \<le> length [''master'', ''self_signing''])"
    by simp
  have e: "2 \<le> length (filter (\<lambda>keyId. startsWith keyId prefix) (Object_keys (keys ?k)))"
    by (simp add: startsWith_def prefix_def algorithm_def Object_keys_def)
  have z: "length (filter (\<lambda>keyId. startsWith keyId prefix) (Object_keys (keys malformed_msk))) = 0"
    by (simp add: malformed_msk_def Object_keys_def)
  have m: "getKeyUsage malformed_msk = Some Master"
    by (simp add: malformed_msk_def getKeyUsage_def)
  show ?thesis
    using malformed_key_is_absent[of ?k "[''master'', ''self_signing'']"]
          malformed_key_is_absent[of malformed_msk "[''master'']"] u e z m
    by blast
qed

section \<open>Signing is gated on self-trust\<close>

text \<open>
  When the own master key is trusted the signing operations do sign and upload: in the
  example world, \<open>signOwnDevice\<close> reads the self-signing seed, signs and uploads.
\<close>

lemma signOwnDevice_trusted_example:
  "map is_signing_call (calls (snd (signOwnDevice example_collaborators trusted_instance)))
     = [False, False, True, False]
   \<and> map is_network_call (calls (snd (signOwnDevice example_collaborators trusted_instance)))
     = [False, False, False, True]"
  by (simp add: signOwnDevice_def signDeviceKey_def getSigningKey_def signKey_def
      record_call_def example_collaborators_def trusted_instance_def new_CrossSigning_def Let_def)

text \<open>
  Claim C3.  A call of \<open>signOwnDevice\<close>, \<open>signDevice\<close> or \<open>signUser\<close> made while the own
  master key is not trusted returns absent and leaves the instance as it was; the record of
  collaborator calls is part of the instance, so nothing was signed and nothing uploaded.
\<close>

theorem signing_gated_on_trust:
  "\<not> isMasterKeyTrusted s \<Longrightarrow>
     signOwnDevice c s = (None, s) \<and> signDevice c devId s = (None, s)
     \<and> signUser c userId s = (None, s)"
  by (simp add: signOwnDevice_def signDevice_def signUser_def)

theorem signing_gated_on_trust_witness:
  "\<not> isMasterKeyTrusted new_CrossSigning
   \<and> signOwnDevice example_collaborators new_CrossSigning = (None, new_CrossSigning)
   \<and> signDevice example_collaborators ''A2'' new_CrossSigning = (None, new_CrossSigning)
   \<and> signUser example_collaborators ''@bob:hs'' new_CrossSigning = (None, new_CrossSigning)"
proof -
  have h: "\<not> isMasterKeyTrusted new_CrossSigning"
    by (simp add: new_CrossSigning_def)
  show ?thesis
    using h signing_gated_on_trust[OF h, of example_collaborators "''A2''" "''@bob:hs''"]
    by simp
qed

text \<open>
  Claim C9.  Whatever the trust state, \<open>signUser\<close> called with the caller's own user id
  returns absent and leaves the instance as it was: no key was fetched and no signature
  uploaded.
\<close>

theorem signUser_own_user_is_noop:
  "signUser c (ownUserId c) s = (None, s)"
  by (simp add: signUser_def)

section \<open>The trust chain of a remote user\<close>

lemma verify_device_worst:
  "verify_device c ssk lowest dk =
     worst_verdict [lowest, hasValidSignatureFrom c (DeviceValue dk) ssk]"
  by (cases lowest; cases "hasValidSignatureFrom c (DeviceValue dk) ssk")
     (simp_all add: verify_device_def worst_verdict_def)

lemma worst_verdict_absorb:
  "worst_verdict (worst_verdict [a, v] # vs) = worst_verdict (a # v # vs)"
  by (cases a; cases v) (simp_all add: worst_verdict_def)

lemma foldl_verify_device:
  "foldl (verify_device c ssk) acc dks =
     worst_verdict (acc # map (\<lambda>dk. hasValidSignatureFrom c (DeviceValue dk) ssk) dks)"
proof (induction dks arbitrary: acc)
  case Nil
  show ?case by (cases acc) (simp_all add: worst_verdict_def)
next
  case (Cons dk dks)
  have "foldl (verify_device c ssk) acc (dk # dks)
          = foldl (verify_device c ssk) (verify_device c ssk acc dk) dks"
    by simp
  also have "\<dots> = worst_verdict (verify_device c ssk acc dk
                 # map (\<lambda>dk. hasValidSignatureFrom c (DeviceValue dk) ssk) dks)"
    by (rule Cons.IH)
  also have "\<dots> = worst_verdict (acc
                 # map (\<lambda>dk. hasValidSignatureFrom c (DeviceValue dk) ssk) (dk # dks))"
    by (simp only: verify_device_worst worst_verdict_absorb list.map)
  finally show ?case .
qed

lemma worst_verdict_Valid_Cons: "worst_verdict (Valid # vs) = worst_verdict vs"
  by (simp add: worst_verdict_def)

lemma getUserTrust_devices:
  assumes "isMasterKeyTrusted s"
      and "getCrossSigningKeyForUser c (ownUserId c) Master True = Some ourMSK"
      and "getCrossSigningKeyForUser c (ownUserId c) UserSigning True = Some ourUSK"
      and "hasValidSignatureFrom c (KeyValue ourUSK) ourMSK = Valid"
      and "getCrossSigningKeyForUser c userId Master True = Some theirMSK"
      and "hasValidSignatureFrom c (KeyValue theirMSK) ourUSK = Valid"
      and "getCrossSigningKeyForUser c userId SelfSigning True = Some theirSSK"
      and "hasValidSignatureFrom c (KeyValue theirSSK) theirMSK = Valid"
    shows "fst (getUserTrust c userId s) =
             trust_of_worst (foldl (verify_device c theirSSK) Valid (devicesForUsers c [userId]))"
  using assms
  by (cases "foldl (verify_device c theirSSK) Valid (devicesForUsers c [userId])")
     (simp_all add: getUserTrust_def fetchCrossSigningKey_def Let_def)

text \<open>
  Claim C1.  When the chain reaches the subject's devices, the \<open>reduce\<close> over the
  per-device verdicts yields the worst verdict under the precedence
  \<open>Invalid > NotSigned > Valid\<close>, and \<open>getUserTrust\<close> answers
  \<open>UserDeviceSignatureMismatch\<close> for \<open>Invalid\<close>, \<open>UserDeviceNotSigned\<close> for
  \<open>NotSigned\<close> and \<open>Trusted\<close> for \<open>Valid\<close>.  For an empty device list the aggregate is
  \<open>Valid\<close> and the user is reported \<open>Trusted\<close>.
\<close>

theorem device_verdicts_worst:
  assumes "isMasterKeyTrusted s"
      and "getCrossSigningKeyForUser c (ownUserId c) Master True = Some ourMSK"
      and "getCrossSigningKeyForUser c (ownUserId c) UserSigning True = Some ourUSK"
      and "hasValidSignatureFrom c (KeyValue ourUSK) ourMSK = Valid"
      and "getCrossSigningKeyForUser c userId Master True = Some theirMSK"
      and "hasValidSignatureFrom c (KeyValue theirMSK) ourUSK = Valid"
      and "getCrossSigningKeyForUser c userId SelfSigning True = Some theirSSK"
      and "hasValidSignatureFrom c (KeyValue theirSSK) theirMSK = Valid"
      and "verdicts = map (\<lambda>dk. hasValidSignatureFrom c (DeviceValue dk) theirSSK)
                          (devicesForUsers c [userId])"
    shows "foldl (verify_device c theirSSK) Valid (devicesForUsers c [userId])
             = worst_verdict verdicts
           \<and> fst (getUserTrust c userId s) = trust_of_worst (worst_verdict verdicts)
           \<and> (devicesForUsers c [userId] = []
                \<longrightarrow> worst_verdict verdicts = Valid \<and> fst (getUserTrust c userId s) = Trusted)"
proof -
  have agg: "foldl (verify_device c theirSSK) Valid (devicesForUsers c [userId])
               = worst_verdict verdicts"
    by (simp add: foldl_verify_device worst_verdict_Valid_Cons assms(9))
  have res: "fst (getUserTrust c userId s) = trust_of_worst (worst_verdict verdicts)"
    using getUserTrust_devices[OF assms(1-8)] agg by simp
  have "devicesForUsers c [userId] = [] \<Longrightarrow> worst_verdict verdicts = Valid"
    by (simp add: assms(9) worst_verdict_def)
  with agg res show ?thesis by simp
qed

theorem device_verdicts_worst_witness:
  "devicesForUsers example_collaborators [''@bob:hs''] = bob_devices
   \<and> foldl (verify_device example_collaborators bob_ssk) Valid bob_devices = Invalid
   \<and> fst (getUserTrust example_collaborators ''@bob:hs'' trusted_instance)
       = UserDeviceSignatureMismatch"
proof -
  have h5: "getCrossSigningKeyForUser example_collaborators ''@bob:hs'' Master True = Some bob_msk"
    by (simp add: example_collaborators_def example_directory_def)
  have h6: "hasValidSignatureFrom example_collaborators (KeyValue bob_msk) alice_usk = Valid"
    by (simp add: example_defs verify_defs)
  have h7: "getCrossSigningKeyForUser example_collaborators ''@bob:hs'' SelfSigning True
              = Some bob_ssk"
    by (simp add: example_collaborators_def example_directory_def)
  have h8: "hasValidSignatureFrom example_collaborators (KeyValue bob_ssk) bob_msk = Valid"
    by (simp add: example_defs verify_defs)
  have d: "devicesForUsers example_collaborators [''@bob:hs''] = bob_devices"
    by (simp add: example_collaborators_def)
  have h9: "[Valid, NotSigned, Invalid]
              = map (\<lambda>dk. hasValidSignatureFrom example_collaborators (DeviceValue dk) bob_ssk)
                    (devicesForUsers example_collaborators [''@bob:hs''])"
    by (simp add: example_defs verify_defs)
  show ?thesis
    using device_verdicts_worst[OF example_own_chain h5 h6 h7 h8 h9] d
    by (simp add: worst_verdict_def)
qed

lemma hasValidSignatureFrom_entry:
  "hasValidSignatureFrom c key signingKey =
     (case getKeyEd25519Key signingKey of
        None \<Rightarrow> NotSigned
      | Some pubKey \<Rightarrow>
          if pubKey = [] then NotSigned
          else (case signature_entry key (user_id signingKey) (prefix @ pubKey) of
                  None \<Rightarrow> NotSigned
                | Some signature \<Rightarrow>
                    if ed25519_verify c pubKey (signable key) signature then Valid else Invalid))"
  by (simp add: hasValidSignatureFrom_def verifyEd25519Signature_def Let_def split: option.splits)

lemma getUserTrust_their_msk_absent:
  assumes "isMasterKeyTrusted s"
      and "getCrossSigningKeyForUser c (ownUserId c) Master True = Some ourMSK"
      and "getCrossSigningKeyForUser c (ownUserId c) UserSigning True = Some ourUSK"
      and "hasValidSignatureFrom c (KeyValue ourUSK) ourMSK = Valid"
      and "getCrossSigningKeyForUser c userId Master True = None"
    shows "fst (getUserTrust c userId s) = UserNotSigned"
  using assms by (simp add: getUserTrust_def fetchCrossSigningKey_def Let_def)

lemma getUserTrust_their_msk_verdict:
  assumes "isMasterKeyTrusted s"
      and "getCrossSigningKeyForUser c (ownUserId c) Master True = Some ourMSK"
      and "getCrossSigningKeyForUser c (ownUserId c) UserSigning True = Some ourUSK"
      and "hasValidSignatureFrom c (KeyValue ourUSK) ourMSK = Valid"
      and "getCrossSigningKeyForUser c userId Master True = Some theirMSK"
      and "hasValidSignatureFrom c (KeyValue theirMSK) ourUSK = v"
      and "v \<noteq> Valid"
    shows "fst (getUserTrust c userId s) =
             (if v = NotSigned then UserNotSigned else UserSignatureMismatch)"
  using assms by (simp add: getUserTrust_def fetchCrossSigningKey_def Let_def)

lemma getUserTrust_their_ssk:
  assumes "isMasterKeyTrusted s"
      and "getCrossSigningKeyForUser c (ownUserId c) Master True = Some ourMSK"
      and "getCrossSigningKeyForUser c (ownUserId c) UserSigning True = Some ourUSK"
      and "hasValidSignatureFrom c (KeyValue ourUSK) ourMSK = Valid"
      and "getCrossSigningKeyForUser c userId Master True = Some theirMSK"
      and "hasValidSignatureFrom c (KeyValue theirMSK) ourUSK = Valid"
      and "case getCrossSigningKeyForUser c userId SelfSigning True of
             None \<Rightarrow> True
           | Some theirSSK \<Rightarrow> hasValidSignatureFrom c (KeyValue theirSSK) theirMSK \<noteq> Valid"
    shows "fst (getUserTrust c userId s) = UserSetupError"
  using assms
  by (cases "getCrossSigningKeyForUser c userId SelfSigning True")
     (simp_all add: getUserTrust_def fetchCrossSigningKey_def Let_def)

text \<open>
  Claim C2.  Once the own side of the chain has passed (self-trust, own master key, own
  user-signing key signed by the own master key): a subject without a published master key
  is \<open>UserNotSigned\<close>; a master key that carries no signature of our user-signing key is
  \<open>UserNotSigned\<close>, one whose signature fails the cryptographic check is
  \<open>UserSignatureMismatch\<close>; a master key that verifies, with the self-signing key absent or
  not validly signed by that master key, is \<open>UserSetupError\<close>.
\<close>

theorem subject_key_verdicts:
  assumes "isMasterKeyTrusted s"
      and "getCrossSigningKeyForUser c (ownUserId c) Master True = Some ourMSK"
      and "getCrossSigningKeyForUser c (ownUserId c) UserSigning True = Some ourUSK"
      and "hasValidSignatureFrom c (KeyValue ourUSK) ourMSK = Valid"
    shows "(getCrossSigningKeyForUser c userId Master True = None
              \<longrightarrow> fst (getUserTrust c userId s) = UserNotSigned)
         \<and> (getCrossSigningKeyForUser c userId Master True = Some theirMSK
              \<longrightarrow> (hasValidSignatureFrom c (KeyValue theirMSK) ourUSK = NotSigned
                     \<longrightarrow> fst (getUserTrust c userId s) = UserNotSigned)
                \<and> (hasValidSignatureFrom c (KeyValue theirMSK) ourUSK = Invalid
                     \<longrightarrow> fst (getUserTrust c userId s) = UserSignatureMismatch)
                \<and> (getKeyEd25519Key ourUSK = Some pubKey
                     \<and> signature_entry (KeyValue theirMSK) (user_id ourUSK) (prefix @ pubKey) = None
                     \<longrightarrow> fst (getUserTrust c userId s) = UserNotSigned)
                \<and> (getKeyEd25519Key ourUSK = Some pubKey \<and> pubKey \<noteq> []
                     \<and> signature_entry (KeyValue theirMSK) (user_id ourUSK) (prefix @ pubKey)
                         = Some signature
                     \<and> \<not> ed25519_verify c pubKey (signable (KeyValue theirMSK)) signature
                     \<longrightarrow> fst (getUserTrust c userId s) = UserSignatureMismatch)
                \<and> (hasValidSignatureFrom c (KeyValue theirMSK) ourUSK = Valid
                     \<longrightarrow> (getCrossSigningKeyForUser c userId SelfSigning True = None
                            \<longrightarrow> fst (getUserTrust c userId s) = UserSetupError)
                       \<and> (getCrossSigningKeyForUser c userId SelfSigning True = Some theirSSK
                            \<and> hasValidSignatureFrom c (KeyValue theirSSK) theirMSK \<noteq> Valid
                            \<longrightarrow> fst (getUserTrust c userId s) = UserSetupError)))"
proof -
  note own = assms
  have absent: "getCrossSigningKeyForUser c userId Master True = None
                 \<Longrightarrow> fst (getUserTrust c userId s) = UserNotSigned"
    by (rule getUserTrust_their_msk_absent[OF own])
  have verdict: "\<And>v. getCrossSigningKeyForUser c userId Master True = Some theirMSK
                 \<Longrightarrow> hasValidSignatureFrom c (KeyValue theirMSK) ourUSK = v \<Longrightarrow> v \<noteq> Valid
                 \<Longrightarrow> fst (getUserTrust c userId s)
                       = (if v = NotSigned then UserNotSigned else UserSignatureMismatch)"
    by (rule getUserTrust_their_msk_verdict[OF own])
  have no_entry: "getKeyEd25519Key ourUSK = Some pubKey
        \<Longrightarrow> signature_entry (KeyValue theirMSK) (user_id ourUSK) (prefix @ pubKey) = None
        \<Longrightarrow> hasValidSignatureFrom c (KeyValue theirMSK) ourUSK = NotSigned"
    by (simp add: hasValidSignatureFrom_entry)
  have bad_entry: "getKeyEd25519Key ourUSK = Some pubKey \<Longrightarrow> pubKey \<noteq> []
        \<Longrightarrow> signature_entry (KeyValue theirMSK) (user_id ourUSK) (prefix @ pubKey) = Some signature
        \<Longrightarrow> \<not> ed25519_verify c pubKey (signable (KeyValue theirMSK)) signature
        \<Longrightarrow> hasValidSignatureFrom c (KeyValue theirMSK) ourUSK = Invalid"
    by (simp add: hasValidSignatureFrom_entry)
  have ssk_none: "getCrossSigningKeyForUser c userId Master True = Some theirMSK
        \<Longrightarrow> hasValidSignatureFrom c (KeyValue theirMSK) ourUSK = Valid
        \<Longrightarrow> getCrossSigningKeyForUser c userId SelfSigning True = None
        \<Longrightarrow> fst (getUserTrust c userId s) = UserSetupError"
    using getUserTrust_their_ssk[OF own, of userId theirMSK] by simp
  have ssk_bad: "getCrossSigningKeyForUser c userId Master True = Some theirMSK
        \<Longrightarrow> hasValidSignatureFrom c (KeyValue theirMSK) ourUSK = Valid
        \<Longrightarrow> getCrossSigningKeyForUser c userId SelfSigning True = Some theirSSK
        \<Longrightarrow> hasValidSignatureFrom c (KeyValue theirSSK) theirMSK \<noteq> Valid
        \<Longrightarrow> fst (getUserTrust c userId s) = UserSetupError"
    using getUserTrust_their_ssk[OF own, of userId theirMSK] by simp
  have ns: "getCrossSigningKeyForUser c userId Master True = Some theirMSK
        \<Longrightarrow> hasValidSignatureFrom c (KeyValue theirMSK) ourUSK = NotSigned
        \<Longrightarrow> fst (getUserTrust c userId s) = UserNotSigned"
    using verdict[of NotSigned] by simp
  have inv: "getCrossSigningKeyForUser c userId Master True = Some theirMSK
        \<Longrightarrow> hasValidSignatureFrom c (KeyValue theirMSK) ourUSK = Invalid
        \<Longrightarrow> fst (getUserTrust c userId s) = UserSignatureMismatch"
    using verdict[of Invalid] by simp
  show ?thesis
    using absent ns inv no_entry bad_entry ssk_none ssk_bad by blast
qed

theorem subject_key_verdicts_witness:
  "fst (getUserTrust example_collaborators ''@carol:hs'' trusted_instance) = UserNotSigned
   \<and> fst (getUserTrust example_collaborators ''@dave:hs'' trusted_instance) = UserNotSigned
   \<and> fst (getUserTrust example_collaborators ''@erin:hs'' trusted_instance) = UserSignatureMismatch
   \<and> fst (getUserTrust example_collaborators ''@frank:hs'' trusted_instance) = UserSetupError
   \<and> fst (getUserTrust example_collaborators ''@gina:hs'' trusted_instance) = UserSetupError"
proof -
  note own = example_own_chain
  have usk: "getKeyEd25519Key alice_usk = Some ''AUSK''" "''AUSK'' \<noteq> []"
    by (simp_all add: example_defs verify_defs)
  have carol: "getCrossSigningKeyForUser example_collaborators ''@carol:hs'' Master True = None"
    by (simp add: example_defs)
  have dave: "getCrossSigningKeyForUser example_collaborators ''@dave:hs'' Master True
                = Some dave_msk"
             "signature_entry (KeyValue dave_msk) (user_id alice_usk) (prefix @ ''AUSK'') = None"
    by (simp_all add: example_defs verify_defs)
  have erin: "getCrossSigningKeyForUser example_collaborators ''@erin:hs'' Master True
                = Some erin_msk"
             "signature_entry (KeyValue erin_msk) (user_id alice_usk) (prefix @ ''AUSK'')
                = Some ''bad''"
             "\<not> ed25519_verify example_collaborators ''AUSK'' (signable (KeyValue erin_msk)) ''bad''"
    by (simp_all add: example_defs verify_defs)
  have frank: "getCrossSigningKeyForUser example_collaborators ''@frank:hs'' Master True
                 = Some frank_msk"
              "hasValidSignatureFrom example_collaborators (KeyValue frank_msk) alice_usk = Valid"
              "getCrossSigningKeyForUser example_collaborators ''@frank:hs'' SelfSigning True = None"
    by (simp_all add: example_defs verify_defs)
  have gina: "getCrossSigningKeyForUser example_collaborators ''@gina:hs'' Master True
                = Some gina_msk"
             "hasValidSignatureFrom example_collaborators (KeyValue gina_msk) alice_usk = Valid"
             "getCrossSigningKeyForUser example_collaborators ''@gina:hs'' SelfSigning True
                = Some gina_ssk"
             "hasValidSignatureFrom example_collaborators (KeyValue gina_ssk) gina_msk \<noteq> Valid"
    by (simp_all add: example_defs verify_defs)
  have c1: "fst (getUserTrust example_collaborators ''@carol:hs'' trusted_instance) = UserNotSigned"
    using subject_key_verdicts[OF own, of "''@carol:hs''"] carol by blast
  have c2: "fst (getUserTrust example_collaborators ''@dave:hs'' trusted_instance) = UserNotSigned"
    using subject_key_verdicts[OF own, of "''@dave:hs''" dave_msk "''AUSK''"] dave usk by blast
  have c3: "fst (getUserTrust example_collaborators ''@erin:hs'' trusted_instance)
              = UserSignatureMismatch"
    using subject_key_verdicts[OF own, of "''@erin:hs''" erin_msk "''AUSK''" "''bad''"] erin usk
    by blast
  have c4: "fst (getUserTrust example_collaborators ''@frank:hs'' trusted_instance) = UserSetupError"
    using subject_key_verdicts[OF own, of "''@frank:hs''" frank_msk] frank by blast
  have c5: "fst (getUserTrust example_collaborators ''@gina:hs'' trusted_instance) = UserSetupError"
    using subject_key_verdicts[OF own, of "''@gina:hs''" gina_msk _ _ gina_ssk] gina by blast
  from c1 c2 c3 c4 c5 show ?thesis by simp
qed

section \<open>Establishing self-trust\<close>

lemma verifyMSKFrom4S_NoPrivKey:
  "fst (verifyMSKFrom4S c allowNetwork s) = NoPrivKey
     \<longleftrightarrow> \<not> truthy (readSecret c ''m.cross_signing.master'')"
  by (auto simp: verifyMSKFrom4S_def getSigningKey_def fetchCrossSigningKey_def Let_def
           split: option.splits prod.splits if_splits)

lemma verifyMSKFrom4S_trust_after:
  "isMasterKeyTrusted (snd (verifyMSKFrom4S c allowNetwork s)) =
    (case fst (verifyMSKFrom4S c allowNetwork s) of
       NoPrivKey \<Rightarrow> isMasterKeyTrusted s | NoPubKey \<Rightarrow> isMasterKeyTrusted s
     | DerivedPubKeyMismatch \<Rightarrow> False | MSKValid \<Rightarrow> True)"
  by (auto simp: verifyMSKFrom4S_def getSigningKey_def fetchCrossSigningKey_def Let_def
                 record_call_def
           split: option.splits prod.splits if_splits)

lemma start_example:
  "isMasterKeyTrusted (start uncached_collaborators (snd (load uncached_collaborators new_CrossSigning)))"
  by (simp add: uncached_collaborators_def example_defs load_def start_def
      verifyMSKFrom4S_def getSigningKey_def fetchCrossSigningKey_def record_call_def
      getKeyEd25519Key_def Object_keys_def startsWith_def prefix_def algorithm_def Let_def)


text \<open>
  Claim C4, as stated, fails: with the seed present and a published master key without any
  ed25519 entry, the verdict is \<open>DerivedPubKeyMismatch\<close>, not \<open>NoPubKey\<close>.
\<close>

theorem malformed_published_key_counterexample:
  "truthy (readSecret malformed_collaborators ''m.cross_signing.master'')
   \<and> getCrossSigningKeyForUser malformed_collaborators (ownUserId malformed_collaborators)
        Master False = Some malformed_msk
   \<and> keys malformed_msk = []
   \<and> getKeyEd25519Key malformed_msk = None
   \<and> fst (verifyMSKFrom4S malformed_collaborators False new_CrossSigning) = DerivedPubKeyMismatch
   \<and> fst (verifyMSKFrom4S malformed_collaborators False new_CrossSigning) \<noteq> NoPubKey"
  by (simp add: malformed_collaborators_def example_collaborators_def malformed_msk_def
      verifyMSKFrom4S_def getSigningKey_def fetchCrossSigningKey_def record_call_def
      getKeyEd25519Key_def Object_keys_def new_CrossSigning_def Let_def)

text \<open>
  Claim C4, amended.  In \<open>verifyMSKFrom4S\<close>, when the private seed is present and a published
  master key of the own user is fetched whose \<open>keys\<close> has no or several ed25519 entries, the
  verdict is \<open>DerivedPubKeyMismatch\<close> and self-trust is false afterwards.
\<close>

theorem malformed_published_key_is_mismatch:
  assumes "truthy (readSecret c ''m.cross_signing.master'')"
      and "getCrossSigningKeyForUser c (ownUserId c) Master allowNetwork = Some publishedMasterKey"
      and "length (filter (\<lambda>keyId. startsWith keyId prefix)
                     (Object_keys (keys publishedMasterKey))) = 0
           \<or> 2 \<le> length (filter (\<lambda>keyId. startsWith keyId prefix)
                            (Object_keys (keys publishedMasterKey)))"
    shows "fst (verifyMSKFrom4S c allowNetwork s) = DerivedPubKeyMismatch
           \<and> \<not> isMasterKeyTrusted (snd (verifyMSKFrom4S c allowNetwork s))"
proof -
  have "getKeyEd25519Key publishedMasterKey = None"
    using assms(3) by (intro getKeyEd25519Key_malformed) arith
  with assms(1,2) show ?thesis
    by (simp add: verifyMSKFrom4S_def getSigningKey_def fetchCrossSigningKey_def Let_def
                  record_call_def)
qed

theorem malformed_published_key_is_mismatch_witness:
  "isMasterKeyTrusted trusted_instance
   \<and> fst (verifyMSKFrom4S malformed_collaborators True trusted_instance) = DerivedPubKeyMismatch
   \<and> \<not> isMasterKeyTrusted (snd (verifyMSKFrom4S malformed_collaborators True trusted_instance))"
proof -
  have h1: "truthy (readSecret malformed_collaborators ''m.cross_signing.master'')"
    by (simp add: malformed_collaborators_def example_collaborators_def)
  have h2: "getCrossSigningKeyForUser malformed_collaborators (ownUserId malformed_collaborators)
              Master True = Some malformed_msk"
    by (simp add: malformed_collaborators_def example_collaborators_def)
  have h3: "length (filter (\<lambda>keyId. startsWith keyId prefix)
                     (Object_keys (keys malformed_msk))) = 0
           \<or> 2 \<le> length (filter (\<lambda>keyId. startsWith keyId prefix)
                            (Object_keys (keys malformed_msk)))"
    by (simp add: malformed_msk_def Object_keys_def)
  have "isMasterKeyTrusted trusted_instance"
    by (simp add: trusted_instance_def)
  with malformed_published_key_is_mismatch[OF h1 h2 h3, of trusted_instance] show ?thesis
    by simp
qed

text \<open>
  Claim C10.  \<open>load\<close> returns true exactly when the Secret Reader yields a master seed (a
  non-empty string); in particular it returns true when the offline verification ends in
  \<open>NoPubKey\<close> or \<open>DerivedPubKeyMismatch\<close>, and then self-trust, false before, is false after.
\<close>

theorem load_reports_seed_presence:
  "fst (load c s) = truthy (readSecret c ''m.cross_signing.master'')
   \<and> (fst (verifyMSKFrom4S c False s) = NoPubKey
        \<or> fst (verifyMSKFrom4S c False s) = DerivedPubKeyMismatch
      \<longrightarrow> fst (load c s)
          \<and> (\<not> isMasterKeyTrusted s \<longrightarrow> \<not> isMasterKeyTrusted (snd (load c s))))"
proof -
  have snd_load: "snd (load c s) = snd (verifyMSKFrom4S c False s)"
    by (simp add: load_def split: prod.splits)
  have fst_load: "fst (load c s) = (fst (verifyMSKFrom4S c False s) \<noteq> NoPrivKey)"
    by (simp add: load_def split: prod.splits)
  show ?thesis
    using verifyMSKFrom4S_NoPrivKey[of c False s] verifyMSKFrom4S_trust_after[of c False s]
    by (auto simp: snd_load fst_load)
qed

theorem load_reports_seed_presence_witness:
  "fst (verifyMSKFrom4S uncached_collaborators False new_CrossSigning) = NoPubKey
   \<and> fst (load uncached_collaborators new_CrossSigning)
   \<and> \<not> isMasterKeyTrusted (snd (load uncached_collaborators new_CrossSigning))
   \<and> fst (verifyMSKFrom4S malformed_collaborators False new_CrossSigning) = DerivedPubKeyMismatch
   \<and> fst (load malformed_collaborators new_CrossSigning)
   \<and> \<not> isMasterKeyTrusted (snd (load malformed_collaborators new_CrossSigning))"
proof -
  have a: "fst (verifyMSKFrom4S uncached_collaborators False new_CrossSigning) = NoPubKey"
    by (simp add: uncached_collaborators_def example_collaborators_def
      verifyMSKFrom4S_def getSigningKey_def fetchCrossSigningKey_def record_call_def
      new_CrossSigning_def Let_def)
  have b: "fst (verifyMSKFrom4S malformed_collaborators False new_CrossSigning)
             = DerivedPubKeyMismatch"
    by (simp add: malformed_collaborators_def example_collaborators_def malformed_msk_def
      verifyMSKFrom4S_def getSigningKey_def fetchCrossSigningKey_def record_call_def
      getKeyEd25519Key_def Object_keys_def new_CrossSigning_def Let_def)
  have n: "\<not> isMasterKeyTrusted new_CrossSigning"
    by (simp add: new_CrossSigning_def)
  show ?thesis
    using load_reports_seed_presence[of uncached_collaborators new_CrossSigning]
          load_reports_seed_presence[of malformed_collaborators new_CrossSigning] a b n
    by blast
qed

section \<open>The verification session trigger\<close>

lemma filter_at_most_one:
  "(\<forall>i < length xs. \<forall>j < length xs. P (xs ! i) \<and> P (xs ! j) \<longrightarrow> i = j)
     \<Longrightarrow> length (filter P xs) \<le> 1"
proof (induction xs)
  case Nil
  show ?case by simp
next
  case (Cons x xs)
  have tail: "\<forall>i < length xs. \<forall>j < length xs. P (xs ! i) \<and> P (xs ! j) \<longrightarrow> i = j"
  proof (intro allI impI)
    fix i j assume "i < length xs" "j < length xs" "P (xs ! i) \<and> P (xs ! j)"
    then have "Suc i = Suc j"
      using Cons.prems[rule_format, of "Suc i" "Suc j"] by simp
    then show "i = j" by simp
  qed
  show ?case
  proof (cases "P x")
    case False
    with Cons.IH[OF tail] show ?thesis by simp
  next
    case True
    have "\<not> P y" if "y \<in> set xs" for y
    proof
      assume py: "P y"
      from that obtain j where j: "j < length xs" "xs ! j = y"
        by (auto simp: in_set_conv_nth)
      with True py have "(0::nat) = Suc j"
        using Cons.prems[rule_format, of 0 "Suc j"] by simp
      then show False by simp
    qed
    then have "filter P xs = []"
      by (simp add: filter_empty_conv)
    with True show ?thesis by simp
  qed
qed

lemma trigger_inv_current:
  "trigger_inv s \<Longrightarrow> j < length (sas_objects s) \<Longrightarrow> \<not> finished (sas_objects s ! j)
     \<Longrightarrow> sasVerificationInProgress s = Some j"
  unfolding trigger_inv_def by blast

lemma trigger_inv_unfinished:
  assumes "trigger_inv s"
  shows "length (unfinished_sessions s) \<le> 1"
  unfolding unfinished_sessions_def
proof (rule filter_at_most_one, intro allI impI)
  fix i j
  assume i: "i < length (sas_objects s)" and j: "j < length (sas_objects s)"
     and unf: "\<not> finished (sas_objects s ! i) \<and> \<not> finished (sas_objects s ! j)"
  have "sasVerificationInProgress s = Some i"
    using trigger_inv_current[OF assms i] unf by blast
  moreover have "sasVerificationInProgress s = Some j"
    using trigger_inv_current[OF assms j] unf by blast
  ultimately show "i = j" by simp
qed

lemma trigger_inv_new: "trigger_inv new_CrossSigning"
  by (simp add: trigger_inv_def new_CrossSigning_def)

lemma trigger_inv_cong:
  assumes "sas_objects s' = sas_objects s"
      and "sasVerificationInProgress s' = sasVerificationInProgress s"
      and "trigger_inv s"
    shows "trigger_inv s'"
  using assms(3) unfolding trigger_inv_def assms(1,2) .

lemma trigger_inv_startVerification:
  assumes "trigger_inv s"
  shows "trigger_inv (snd (startVerification c userId msg s))"
proof (cases "case session_in_progress s of None \<Rightarrow> False | Some sas \<Rightarrow> \<not> finished sas")
  case True
  with assms show ?thesis by (simp add: startVerification_def)
next
  case False
  have all_finished: "finished (sas_objects s ! j)" if "j < length (sas_objects s)" for j
  proof (rule ccontr)
    assume "\<not> finished (sas_objects s ! j)"
    with assms that have "sasVerificationInProgress s = Some j"
      by (blast intro: trigger_inv_current)
    then have "session_in_progress s = Some (sas_objects s ! j)"
      by (simp add: session_in_progress_def)
    with False \<open>\<not> finished (sas_objects s ! j)\<close> show False by simp
  qed
  from False show ?thesis
    by (auto simp: startVerification_def trigger_inv_def Let_def nth_append all_finished
             less_Suc_eq)
qed

lemma trigger_inv_on_message:
  "trigger_inv s \<Longrightarrow> trigger_inv (on_message c ev s)"
  by (simp add: on_message_def trigger_inv_startVerification)

lemma trigger_inv_valid:
  "trigger_inv s \<Longrightarrow> sasVerificationInProgress s = Some i \<Longrightarrow> i < length (sas_objects s)"
  unfolding trigger_inv_def by blast

lemma trigger_inv_finishes:
  assumes "trigger_inv s"
  shows "trigger_inv (step c s (SessionFinishes i))"
proof (cases "i < length (sas_objects s)")
  case False
  with assms show ?thesis by simp
next
  case True
  define objs where "objs = (sas_objects s)[i := (sas_objects s ! i)\<lparr>finished := True\<rparr>]"
  define s' where "s' = s\<lparr>sas_objects := objs\<rparr>"
  have step: "step c s (SessionFinishes i) = s'"
    using True by (simp add: s'_def objs_def)
  have objs: "sas_objects s' = objs" and cur: "sasVerificationInProgress s' = sasVerificationInProgress s"
    by (simp_all add: s'_def)
  have len: "length objs = length (sas_objects s)"
    by (simp add: objs_def)
  have "trigger_inv s'"
    unfolding trigger_inv_def objs cur len
  proof (intro conjI allI impI)
    fix j
    assume j: "j < length (sas_objects s)" and unf: "\<not> finished (objs ! j)"
    have "j \<noteq> i"
    proof
      assume "j = i"
      with True have "finished (objs ! j)" by (simp add: objs_def)
      with unf show False by simp
    qed
    then have "objs ! j = sas_objects s ! j"
      by (simp add: objs_def)
    with unf have "\<not> finished (sas_objects s ! j)" by simp
    then show "sasVerificationInProgress s = Some j"
      by (rule trigger_inv_current[OF assms j])
  next
    fix k
    assume "sasVerificationInProgress s = Some k"
    then show "k < length (sas_objects s)"
      by (rule trigger_inv_valid[OF assms])
  qed
  with step show ?thesis by simp
qed

lemma getSigningKey_sas:
  "sas_objects (snd (getSigningKey c usg s)) = sas_objects s
   \<and> sasVerificationInProgress (snd (getSigningKey c usg s)) = sasVerificationInProgress s"
  by (simp add: getSigningKey_def record_call_def Let_def)

lemma verifyMSKFrom4S_sas:
  "sas_objects (snd (verifyMSKFrom4S c allowNetwork s)) = sas_objects s
   \<and> sasVerificationInProgress (snd (verifyMSKFrom4S c allowNetwork s))
       = sasVerificationInProgress s"
  by (simp add: verifyMSKFrom4S_def getSigningKey_def fetchCrossSigningKey_def record_call_def
                Let_def split: option.splits)

lemma load_sas:
  "sas_objects (snd (load c s)) = sas_objects s
   \<and> sasVerificationInProgress (snd (load c s)) = sasVerificationInProgress s"
  using verifyMSKFrom4S_sas[of c False s] by (simp add: load_def case_prod_beta)

lemma start_sas:
  "sas_objects (start c s) = sas_objects s
   \<and> sasVerificationInProgress (start c s) = sasVerificationInProgress s"
  using verifyMSKFrom4S_sas[of c True s] by (simp add: start_def)

lemma signDeviceKey_sas:
  "sas_objects (snd (signDeviceKey c keyToSign s)) = sas_objects s
   \<and> sasVerificationInProgress (snd (signDeviceKey c keyToSign s)) = sasVerificationInProgress s"
  by (simp add: signDeviceKey_def getSigningKey_def signKey_def record_call_def Let_def)

lemma signOwnDevice_sas:
  "sas_objects (snd (signOwnDevice c s)) = sas_objects s
   \<and> sasVerificationInProgress (snd (signOwnDevice c s)) = sasVerificationInProgress s"
  by (simp add: signOwnDevice_def signDeviceKey_sas record_call_def)

lemma signDevice_sas:
  "sas_objects (snd (signDevice c devId s)) = sas_objects s
   \<and> sasVerificationInProgress (snd (signDevice c devId s)) = sasVerificationInProgress s"
  by (simp add: signDevice_def signDeviceKey_sas record_call_def Let_def split: option.splits)

lemma signUser_sas:
  "sas_objects (snd (signUser c userId s)) = sas_objects s
   \<and> sasVerificationInProgress (snd (signUser c userId s)) = sasVerificationInProgress s"
  by (simp add: signUser_def getSigningKey_def fetchCrossSigningKey_def signKey_def
                record_call_def Let_def split: option.splits)

lemma record_call_sas:
  "sas_objects (record_call cl s) = sas_objects s"
  "sasVerificationInProgress (record_call cl s) = sasVerificationInProgress s"
  by (simp_all add: record_call_def)

lemma getUserTrust_sas:
  "sas_objects (snd (getUserTrust c userId s)) = sas_objects s
   \<and> sasVerificationInProgress (snd (getUserTrust c userId s)) = sasVerificationInProgress s"
  unfolding getUserTrust_def fetchCrossSigningKey_def Let_def
  by (simp add: record_call_sas split: option.split prod.split)

lemma trigger_inv_step:
  assumes "trigger_inv s"
  shows "trigger_inv (step c s a)"
proof (cases a)
  case (Message ev)
  with assms show ?thesis by (simp add: trigger_inv_on_message)
next
  case (CallStartVerification userId msg)
  with assms show ?thesis by (simp add: trigger_inv_startVerification)
next
  case (SessionFinishes i)
  then show ?thesis using trigger_inv_finishes[OF assms, of c i] by simp
next
  case CallLoad
  then show ?thesis
    using trigger_inv_cong[OF _ _ assms, of "snd (load c s)"] load_sas[of c s] by simp
next
  case CallStart
  then show ?thesis
    using trigger_inv_cong[OF _ _ assms, of "start c s"] start_sas[of c s] by simp
next
  case CallSignOwnDevice
  then show ?thesis
    using trigger_inv_cong[OF _ _ assms, of "snd (signOwnDevice c s)"] signOwnDevice_sas[of c s]
    by simp
next
  case (CallSignDevice devId)
  then show ?thesis
    using trigger_inv_cong[OF _ _ assms, of "snd (signDevice c devId s)"]
          signDevice_sas[of c devId s]
    by simp
next
  case (CallSignUser userId)
  then show ?thesis
    using trigger_inv_cong[OF _ _ assms, of "snd (signUser c userId s)"]
          signUser_sas[of c userId s]
    by simp
next
  case (CallGetUserTrust userId)
  then show ?thesis
    using trigger_inv_cong[OF _ _ assms, of "snd (getUserTrust c userId s)"]
          getUserTrust_sas[of c userId s]
    by simp
qed

lemma trigger_inv_foldl:
  "trigger_inv s \<Longrightarrow> trigger_inv (foldl (step c) s acts)"
  by (induction acts arbitrary: s) (simp_all add: trigger_inv_step)

lemma trigger_inv_run: "trigger_inv (run c acts)"
  by (simp add: run_def trigger_inv_foldl trigger_inv_new)

lemma finished_t1_eq:
  "finished_t1 = \<lparr>isMasterKeyTrusted = False, sasVerificationInProgress = Some 0,
                   sas_objects = [session_t1], calls = []\<rparr>"
  by (simp add: finished_t1_def run_def on_message_def startVerification_def
      session_in_progress_def example_collaborators_def request_t1_def session_t1_def
      new_CrossSigning_def)

text \<open>
  Claim C7, as stated, fails: after a session with channel id \<open>t1\<close> has finished, a
  \<open>start\<close> message with transaction id \<open>t1\<close> is not covered by the stated condition for
  ignoring (the session is finished), yet the listener ignores it and begins no session.
\<close>

theorem trigger_counterexample:
  "session_in_progress finished_t1 = Some session_t1
   \<and> finished session_t1
   \<and> ev_type start_t1 = Start
   \<and> on_message example_collaborators start_t1 finished_t1 = finished_t1"
  by (simp add: finished_t1_eq on_message_def session_in_progress_def session_t1_def
      start_t1_def)

lemma on_message_ignored:
  "session_in_progress s = Some sas \<Longrightarrow> \<not> finished sas \<or> channel_id sas = transaction_id ev
     \<Longrightarrow> on_message c ev s = s"
  by (auto simp: on_message_def)

lemma on_message_admitted:
  assumes "session_in_progress s = None
           \<or> session_in_progress s = Some sas \<and> finished sas
              \<and> channel_id sas \<noteq> transaction_id ev"
      and "ev_type ev = Request \<or> ev_type ev = Start"
    shows "on_message c ev s =
             s\<lparr>sas_objects := sas_objects s @
                  [\<lparr>otherUserId = sender ev, channel_id = newChannelId c (Some ev),
                    startingMessage = Some ev, finished = False\<rparr>],
               sasVerificationInProgress := Some (length (sas_objects s))\<rparr>"
  using assms by (auto simp: on_message_def startVerification_def Let_def)

lemma session_in_progress_new:
  "session_in_progress (s\<lparr>sas_objects := sas_objects s @ [sas],
                          sasVerificationInProgress := Some (length (sas_objects s))\<rparr>) = Some sas"
  by (simp add: session_in_progress_def)

text \<open>
  Claim C7, amended.  An inbound message is ignored when a session exists and either it has
  not finished or its channel id equals the message's transaction id.  Otherwise, a message
  of type request or start begins a new session bound to the sender and the message, which
  takes the place of any previous, finished, session.  In every state reached from a fresh
  instance by messages, method calls and sessions finishing, at most one session has not
  finished.
\<close>

theorem trigger_admission:
  "(session_in_progress s = Some sas
      \<and> (\<not> finished sas \<or> channel_id sas = transaction_id ev)
    \<longrightarrow> on_message c ev s = s)
   \<and> ((session_in_progress s = None
        \<or> session_in_progress s = Some sas \<and> finished sas
           \<and> channel_id sas \<noteq> transaction_id ev)
       \<and> (ev_type ev = Request \<or> ev_type ev = Start)
    \<longrightarrow> on_message c ev s =
          s\<lparr>sas_objects := sas_objects s @
               [\<lparr>otherUserId = sender ev, channel_id = newChannelId c (Some ev),
                 startingMessage = Some ev, finished = False\<rparr>],
            sasVerificationInProgress := Some (length (sas_objects s))\<rparr>
        \<and> session_in_progress (on_message c ev s) =
            Some \<lparr>otherUserId = sender ev, channel_id = newChannelId c (Some ev),
                  startingMessage = Some ev, finished = False\<rparr>)
   \<and> length (unfinished_sessions (run c acts)) \<le> 1"
proof (intro conjI impI)
  assume "session_in_progress s = Some sas
      \<and> (\<not> finished sas \<or> channel_id sas = transaction_id ev)"
  then show "on_message c ev s = s"
    using on_message_ignored[of s sas ev c] by blast
next
  assume a: "(session_in_progress s = None
        \<or> session_in_progress s = Some sas \<and> finished sas
           \<and> channel_id sas \<noteq> transaction_id ev)
       \<and> (ev_type ev = Request \<or> ev_type ev = Start)"
  then show eq: "on_message c ev s =
          s\<lparr>sas_objects := sas_objects s @
               [\<lparr>otherUserId = sender ev, channel_id = newChannelId c (Some ev),
                 startingMessage = Some ev, finished = False\<rparr>],
            sasVerificationInProgress := Some (length (sas_objects s))\<rparr>"
    using on_message_admitted[of s sas ev c] by blast
  show "session_in_progress (on_message c ev s) =
            Some \<lparr>otherUserId = sender ev, channel_id = newChannelId c (Some ev),
                  startingMessage = Some ev, finished = False\<rparr>"
    unfolding eq by (rule session_in_progress_new)
next
  show "length (unfinished_sessions (run c acts)) \<le> 1"
    by (rule trigger_inv_unfinished[OF trigger_inv_run])
qed

theorem trigger_admission_witness:
  "on_message example_collaborators start_t1 finished_t1 = finished_t1
   \<and> session_in_progress (on_message example_collaborators request_t2 finished_t1)
       = Some session_t2
   \<and> session_in_progress (on_message example_collaborators request_t1 new_CrossSigning)
       = Some (session_t1\<lparr>finished := False\<rparr>)
   \<and> length (unfinished_sessions
        (run example_collaborators [Message request_t1, SessionFinishes 0, Message request_t2]))
       \<le> 1"
proof -
  have cur: "session_in_progress finished_t1 = Some session_t1"
    by (simp add: finished_t1_eq session_in_progress_def)
  have fin: "finished session_t1" "channel_id session_t1 = transaction_id start_t1"
            "channel_id session_t1 \<noteq> transaction_id request_t2"
            "ev_type request_t2 = Request" "ev_type request_t1 = Request"
    by (simp_all add: session_t1_def start_t1_def request_t2_def request_t1_def)
  have none: "session_in_progress new_CrossSigning = None"
    by (simp add: session_in_progress_def new_CrossSigning_def)
  have a: "on_message example_collaborators start_t1 finished_t1 = finished_t1"
    using trigger_admission[of finished_t1 session_t1 start_t1 example_collaborators] cur fin
    by blast
  have "session_in_progress (on_message example_collaborators request_t2 finished_t1) =
          Some \<lparr>otherUserId = sender request_t2,
                channel_id = newChannelId example_collaborators (Some request_t2),
                startingMessage = Some request_t2, finished = False\<rparr>"
    using trigger_admission[of finished_t1 session_t1 request_t2 example_collaborators] cur fin
    by blast
  then have b: "session_in_progress (on_message example_collaborators request_t2 finished_t1)
                  = Some session_t2"
    by (simp add: session_t2_def request_t2_def example_collaborators_def)
  have "session_in_progress (on_message example_collaborators request_t1 new_CrossSigning) =
          Some \<lparr>otherUserId = sender request_t1,
                channel_id = newChannelId example_collaborators (Some request_t1),
                startingMessage = Some request_t1, finished = False\<rparr>"
    using trigger_admission[of new_CrossSigning _ request_t1 example_collaborators] none fin
    by blast
  then have c: "session_in_progress (on_message example_collaborators request_t1 new_CrossSigning)
                  = Some (session_t1\<lparr>finished := False\<rparr>)"
    by (simp add: session_t1_def request_t1_def example_collaborators_def)
  have d: "length (unfinished_sessions
        (run example_collaborators [Message request_t1, SessionFinishes 0, Message request_t2]))
       \<le> 1"
    using trigger_admission[of _ _ _ example_collaborators
            "[Message request_t1, SessionFinishes 0, Message request_t2]"]
    by blast
  from a b c d show ?thesis by blast
qed

section \<open>The session store and its mirror\<close>

lemma store_getKey_absent:
  "store_getKey st key \<noteq> Some key \<longleftrightarrow> sessionStore st key = None"
  by (simp add: store_getKey_def)

lemma store_put_map_le:
  "sessionStore st key = None \<Longrightarrow> sessionStore st \<subseteq>\<^sub>m sessionStore (store_put key val st)"
  by (auto simp: store_put_def map_le_def)

lemma restore_loop_props:
  "restore_loop imp lsPrefix e2eePrefix i success st = (success', st') \<Longrightarrow>
     sessionStore st \<subseteq>\<^sub>m sessionStore st'
     \<and> (success' \<longleftrightarrow> success \<or> (\<exists>k. sessionStore st k = None \<and> sessionStore st' k \<noteq> None))
     \<and> localStorage st' = localStorage st \<and> databaseName st' = databaseName st"
proof (induction imp lsPrefix e2eePrefix i success st arbitrary: success' st'
       rule: restore_loop.induct)
  case (1 imp lsPrefix e2eePrefix i success st)
  let ?ls = "localStorage st"
  let ?lsKey = "the (ls_key ?ls i)"
  let ?key = "substr ?lsKey (length lsPrefix)"
  let ?val = "parse imp (the (getItem ?ls ?lsKey))"
  show ?case
  proof (cases "i < ls_length ?ls")
    case False
    then have "restore_loop imp lsPrefix e2eePrefix i success st = (success, st)"
      by (subst restore_loop.simps) simp
    with "1.prems" show ?thesis by auto
  next
    case inrange: True
    show ?thesis
    proof (cases "startsWith ?lsKey e2eePrefix \<and> store_getKey st ?key \<noteq> Some ?key")
      case True
      then have absent: "sessionStore st ?key = None"
        by (simp add: store_getKey_absent)
      have unfold: "restore_loop imp lsPrefix e2eePrefix i success st
              = restore_loop imp lsPrefix e2eePrefix (i + 1) True (store_put ?key ?val st)"
        using inrange True by (subst restore_loop.simps) (simp add: Let_def)
      then have rec: "restore_loop imp lsPrefix e2eePrefix (i + 1) True (store_put ?key ?val st)
              = (success', st')"
        using "1.prems" by simp
      have ih: "sessionStore (store_put ?key ?val st) \<subseteq>\<^sub>m sessionStore st'
          \<and> (success' \<longleftrightarrow> True \<or> (\<exists>k. sessionStore (store_put ?key ?val st) k = None
                                       \<and> sessionStore st' k \<noteq> None))
          \<and> localStorage st' = localStorage (store_put ?key ?val st)
          \<and> databaseName st' = databaseName (store_put ?key ?val st)"
        using "1.IH"(1)[OF inrange refl _ refl refl refl _ rec] True by simp
      have le: "sessionStore st \<subseteq>\<^sub>m sessionStore st'"
        using store_put_map_le[OF absent] ih by (blast intro: map_le_trans)
      have "sessionStore (store_put ?key ?val st) ?key = Some ?val"
        by (simp add: store_put_def)
      then have "sessionStore st' ?key = Some ?val"
        using ih by (auto simp: map_le_def dom_def)
      with absent have "\<exists>k. sessionStore st k = None \<and> sessionStore st' k \<noteq> None"
        by auto
      with le ih show ?thesis by (simp add: store_put_def)
    next
      case False
      have unfold: "restore_loop imp lsPrefix e2eePrefix i success st
              = restore_loop imp lsPrefix e2eePrefix (i + 1) success st"
        using inrange False by (subst restore_loop.simps) (auto simp: Let_def)
      then have rec: "restore_loop imp lsPrefix e2eePrefix (i + 1) success st = (success', st')"
        using "1.prems" by simp
      show ?thesis
      proof (cases "startsWith ?lsKey e2eePrefix")
        case True
        with False have "\<not> \<not> (store_getKey st ?key = Some ?key)" by simp
        from "1.IH"(2)[OF inrange refl True refl refl refl this rec] show ?thesis .
      next
        case False
        from "1.IH"(3)[OF inrange refl False rec] show ?thesis .
      qed
    qed
  qed
qed

lemma tryRestore_props:
  "sessionStore st \<subseteq>\<^sub>m sessionStore (snd (tryRestoreE2EEIdentityFromLocalStorage imp st))
   \<and> (fst (tryRestoreE2EEIdentityFromLocalStorage imp st)
        \<longleftrightarrow> (\<exists>k. sessionStore st k = None
                 \<and> sessionStore (snd (tryRestoreE2EEIdentityFromLocalStorage imp st)) k \<noteq> None))"
  using restore_loop_props[of imp "databaseName st @ ''.session.''"
          "(databaseName st @ ''.session.'') @ SESSION_E2EE_KEY_PREFIX imp" 0 False st
          "fst (tryRestoreE2EEIdentityFromLocalStorage imp st)"
          "snd (tryRestoreE2EEIdentityFromLocalStorage imp st)"]
  by (simp add: tryRestoreE2EEIdentityFromLocalStorage_def Let_def)

text \<open>
  Claim C5.  A key \<open>K\<close> that holds a value in the primary store holds the same value after
  \<open>tryRestoreE2EEIdentityFromLocalStorage\<close>, whatever the backup contains for \<open>K\<close>; a key
  whose value differs afterwards was absent before; and the procedure returns true exactly
  when some key that was absent is present afterwards.
\<close>

theorem restore_never_overwrites:
  "(sessionStore st K = Some old
      \<longrightarrow> sessionStore (snd (tryRestoreE2EEIdentityFromLocalStorage imp st)) K = Some old)
   \<and> (sessionStore (snd (tryRestoreE2EEIdentityFromLocalStorage imp st)) k \<noteq> sessionStore st k
      \<longrightarrow> sessionStore st k = None)
   \<and> (fst (tryRestoreE2EEIdentityFromLocalStorage imp st)
      \<longleftrightarrow> (\<exists>k. sessionStore st k = None
               \<and> sessionStore (snd (tryRestoreE2EEIdentityFromLocalStorage imp st)) k \<noteq> None))"
proof -
  let ?st' = "snd (tryRestoreE2EEIdentityFromLocalStorage imp st)"
  have le: "sessionStore st \<subseteq>\<^sub>m sessionStore ?st'"
    using tryRestore_props[of st imp] by blast
  have keep: "sessionStore ?st' x = Some v" if "sessionStore st x = Some v" for x v
    using le that by (auto simp: map_le_def dom_def)
  have a: "sessionStore st K = Some old \<longrightarrow> sessionStore ?st' K = Some old"
    using keep by blast
  have b: "sessionStore ?st' k \<noteq> sessionStore st k \<longrightarrow> sessionStore st k = None"
    using keep[of k] by (cases "sessionStore st k") auto
  show ?thesis
    using a b tryRestore_props[of st imp] by blast
qed

lemma restore_backup_store:
  "fst (tryRestoreE2EEIdentityFromLocalStorage example_imported backup_store) = True"
  "sessionStore (snd (tryRestoreE2EEIdentityFromLocalStorage example_imported backup_store))
     ''e2ee:L'' = Some ''lost''"
  by code_simp+

theorem restore_never_overwrites_witness:
  "getItem (localStorage backup_store) ''db.session.e2ee:K'' = Some ''new''
   \<and> sessionStore backup_store ''e2ee:K'' = Some ''old''
   \<and> sessionStore (snd (tryRestoreE2EEIdentityFromLocalStorage example_imported backup_store))
        ''e2ee:K'' = Some ''old''
   \<and> sessionStore backup_store ''e2ee:L'' = None
   \<and> sessionStore (snd (tryRestoreE2EEIdentityFromLocalStorage example_imported backup_store))
        ''e2ee:L'' = Some ''lost''
   \<and> fst (tryRestoreE2EEIdentityFromLocalStorage example_imported backup_store)"
proof -
  have h: "getItem (localStorage backup_store) ''db.session.e2ee:K'' = Some ''new''"
          "sessionStore backup_store ''e2ee:K'' = Some ''old''"
          "sessionStore backup_store ''e2ee:L'' = None"
    by (simp_all add: backup_store_def getItem_def)
  have l: "sessionStore (snd (tryRestoreE2EEIdentityFromLocalStorage example_imported backup_store))
             ''e2ee:L'' = Some ''lost''"
    by (rule restore_backup_store)
  show ?thesis
    using restore_never_overwrites[of backup_store "''e2ee:K''" "''old''" example_imported
            "''e2ee:L''"] h l
    by auto
qed

lemma map_of_filter_key:
  "map_of (filter (\<lambda>(k', v). k' \<noteq> k) xs) x = (if x = k then None else map_of xs x)"
  by (induction xs) auto

lemma getItem_removeItem:
  "getItem (removeItem ls k) k' = (if k' = k then None else getItem ls k')"
  by (simp add: getItem_def removeItem_def map_of_filter_key)

lemma remove_keeps_mirror_entry:
  "getItem (localStorage (remove imp key st)) (databaseName st @ ''.session.'' @ key)
     = getItem (localStorage st) (databaseName st @ ''.session.'' @ key)"
  by (simp add: remove_def store_delete_def getItem_removeItem Let_def)

text \<open>
  Claim C6 asks that \<open>remove(key)\<close> delete the mirrored entry
  \<open><databaseName>.session.<key>\<close> that \<open>set\<close> wrote.  The source removes the item named
  \<open>databaseName + key\<close> instead: after \<open>set\<close> and \<open>remove\<close> of the secret key
  \<open>e2ee:olm\<close> in the database \<open>db\<close>, the primary entry is gone and the mirrored entry
  \<open>db.session.e2ee:olm\<close> is still there.
\<close>

theorem remove_leaves_mirror_entry:
  "startsWith ''e2ee:olm'' (SESSION_E2EE_KEY_PREFIX example_imported)
   \<and> getItem (localStorage (set_entry example_imported ''e2ee:olm'' ''secret'' empty_store))
        ''db.session.e2ee:olm'' = Some ''secret''
   \<and> getItem (localStorage (remove example_imported ''e2ee:olm''
                 (set_entry example_imported ''e2ee:olm'' ''secret'' empty_store)))
        ''db.session.e2ee:olm'' = Some ''secret''
   \<and> get (remove example_imported ''e2ee:olm''
            (set_entry example_imported ''e2ee:olm'' ''secret'' empty_store)) ''e2ee:olm'' = None"
  by (simp add: set_entry_def remove_def writeKeyToLocalStorage_def setItem_def removeItem_def
      getItem_def storage_size_def store_put_def store_delete_def get_def store_get_def
      startsWith_def example_imported_def empty_store_def Let_def)

end
